theory Spec2Isabelle
  imports Main
begin

section \<open>Python strings\<close>

text \<open>
  Strings are lists of characters. A character stands for a code point below 256; the
  whitespace class is the one of \<^verbatim>\<open>str.isspace\<close>, which \<^verbatim>\<open>\s\<close> and
  \<^verbatim>\<open>str.strip\<close> both use, restricted to that range.
\<close>

definition isspace :: "char \<Rightarrow> bool" where
  "isspace c = (c \<in> set [CHR 0x09, CHR 0x0A, CHR 0x0B, CHR 0x0C, CHR 0x0D,
                          CHR 0x1C, CHR 0x1D, CHR 0x1E, CHR 0x1F, CHR '' '',
                          CHR 0x85, CHR 0xA0])"

definition isdigit :: "char \<Rightarrow> bool" where
  "isdigit c = (c \<in> set ''0123456789'')"

text \<open>
  \<^verbatim>\<open>str.lower\<close> on the code points below 256: the ASCII capitals, and the Latin-1
  capitals 0xC0 to 0xDE but for the multiplication sign 0xD7, go to the small letter 32
  places further on; every other character stays.
\<close>

definition capitals :: string where
  "capitals =
     ''ABCDEFGHIJKLMNOPQRSTUVWXYZ'' @
     [CHR 0xC0, CHR 0xC1, CHR 0xC2, CHR 0xC3, CHR 0xC4, CHR 0xC5, CHR 0xC6, CHR 0xC7,
      CHR 0xC8, CHR 0xC9, CHR 0xCA, CHR 0xCB, CHR 0xCC, CHR 0xCD, CHR 0xCE, CHR 0xCF,
      CHR 0xD0, CHR 0xD1, CHR 0xD2, CHR 0xD3, CHR 0xD4, CHR 0xD5, CHR 0xD6, CHR 0xD8,
      CHR 0xD9, CHR 0xDA, CHR 0xDB, CHR 0xDC, CHR 0xDD, CHR 0xDE]"

definition small_letters :: string where
  "small_letters =
     ''abcdefghijklmnopqrstuvwxyz'' @
     [CHR 0xE0, CHR 0xE1, CHR 0xE2, CHR 0xE3, CHR 0xE4, CHR 0xE5, CHR 0xE6, CHR 0xE7,
      CHR 0xE8, CHR 0xE9, CHR 0xEA, CHR 0xEB, CHR 0xEC, CHR 0xED, CHR 0xEE, CHR 0xEF,
      CHR 0xF0, CHR 0xF1, CHR 0xF2, CHR 0xF3, CHR 0xF4, CHR 0xF5, CHR 0xF6, CHR 0xF8,
      CHR 0xF9, CHR 0xFA, CHR 0xFB, CHR 0xFC, CHR 0xFD, CHR 0xFE]"

definition lower_char :: "char \<Rightarrow> char" where
  "lower_char c = (case map_of (zip capitals small_letters) c of None \<Rightarrow> c | Some l \<Rightarrow> l)"

definition lower :: "string \<Rightarrow> string" where
  "lower s = map lower_char s"

fun starts_with :: "string \<Rightarrow> string \<Rightarrow> bool" where
  "starts_with [] s = True"
| "starts_with (p # ps) [] = False"
| "starts_with (p # ps) (c # cs) = (p = c \<and> starts_with ps cs)"

text \<open>The substring test \<^verbatim>\<open>sub in s\<close>.\<close>

fun py_in :: "string \<Rightarrow> string \<Rightarrow> bool" where
  "py_in sub [] = (sub = [])"
| "py_in sub (c # cs) = (starts_with sub (c # cs) \<or> py_in sub cs)"

text \<open>\<^verbatim>\<open>s.strip()\<close>: leading and trailing whitespace removed.\<close>

definition py_strip :: "string \<Rightarrow> string" where
  "py_strip s = rev (dropWhile isspace (rev (dropWhile isspace s)))"

text \<open>
  \<^verbatim>\<open>s.replace(old, new)\<close>: every non-overlapping occurrence of \<open>old\<close>, from the
  left. With an empty \<open>old\<close> Python inserts \<open>new\<close> before every character and at the end.
\<close>

function replace_from :: "string \<Rightarrow> string \<Rightarrow> string \<Rightarrow> string" where
  "replace_from old new [] = []"
| "replace_from old new (c # cs) =
     (if old \<noteq> [] \<and> starts_with old (c # cs)
      then new @ replace_from old new (drop (length old) (c # cs))
      else c # replace_from old new cs)"
  by pat_completeness auto
termination
  by (relation "measure (\<lambda>(old, new, s). length s)") auto

definition py_replace :: "string \<Rightarrow> string \<Rightarrow> string \<Rightarrow> string" where
  "py_replace old new s =
     (if old = [] then new @ concat (map (\<lambda>c. c # new) s) else replace_from old new s)"

text \<open>\<^verbatim>\<open>s.split('\n')\<close>: the pieces between newlines, empty pieces kept.\<close>

fun split_lines :: "string \<Rightarrow> string list" where
  "split_lines [] = [[]]"
| "split_lines (c # cs) =
     (if c = CHR 0x0A then [] # split_lines cs
      else (case split_lines cs of [] \<Rightarrow> [[c]] | l # ls \<Rightarrow> (c # l) # ls))"

section \<open>Text normalisation\<close>

text \<open>
  \<^verbatim>\<open>re.sub(r'<[^>]+>', '', text)\<close>: at a \<open><\<close> the class \<open>[^>]+\<close> takes every
  character up to the next \<open>>\<close>; the match needs at least one such character and the
  closing \<open>>\<close>, otherwise the \<open><\<close> stays and the scan moves on by one character.
\<close>

function strip_tags :: "string \<Rightarrow> string" where
  "strip_tags [] = []"
| "strip_tags (c # cs) =
     (if c = CHR ''<'' \<and> takeWhile (\<lambda>x. x \<noteq> CHR ''>'') cs \<noteq> []
          \<and> dropWhile (\<lambda>x. x \<noteq> CHR ''>'') cs \<noteq> []
      then strip_tags (tl (dropWhile (\<lambda>x. x \<noteq> CHR ''>'') cs))
      else c # strip_tags cs)"
  by pat_completeness auto
termination
proof (relation "measure length")
  show "wf (measure length)" by simp
next
  fix c :: char and cs
  have "length (dropWhile (\<lambda>x. x \<noteq> CHR ''>'') cs) \<le> length cs"
    by (rule length_dropWhile_le)
  then show "(tl (dropWhile (\<lambda>x. x \<noteq> CHR ''>'') cs), c # cs) \<in> measure length"
    by simp
next
  fix c :: char and cs
  show "(cs, c # cs) \<in> measure length" by simp
qed

text \<open>\<^verbatim>\<open>re.sub(r'\s+', ' ', text)\<close>: every maximal run of whitespace becomes one space.\<close>

function collapse_ws :: "string \<Rightarrow> string" where
  "collapse_ws [] = []"
| "collapse_ws (c # cs) =
     (if isspace c then CHR '' '' # collapse_ws (dropWhile isspace cs)
      else c # collapse_ws cs)"
  by pat_completeness auto
termination
proof (relation "measure length")
  show "wf (measure length)" by simp
next
  fix c :: char and cs
  have "length (dropWhile isspace cs) \<le> length cs"
    by (rule length_dropWhile_le)
  then show "(dropWhile isspace cs, c # cs) \<in> measure length"
    by simp
next
  fix c :: char and cs
  show "(cs, c # cs) \<in> measure length" by simp
qed

text \<open>
  \<^verbatim>\<open>
  def clean_text(text):
      if not text:
          return "N/A"
      text = re.sub(r'<[^>]+>', '', text)
      return re.sub(r'\s+', ' ', text).strip()
  \<close>
  The same in both source files. The emptiness test looks at the argument, before the
  tags and the whitespace are removed.
\<close>

definition clean_text :: "string \<Rightarrow> string" where
  "clean_text text =
     (if text = [] then ''N/A'' else py_strip (collapse_ws (strip_tags text)))"


section \<open>Records and the output sink\<close>

text \<open>
  A Python \<^verbatim>\<open>dict\<close> from strings to strings: an association list in insertion order.
  Assigning to an existing key keeps its place, a new key goes to the end.
\<close>

type_synonym dict = "(string \<times> string) list"

fun dict_set :: "string \<Rightarrow> string \<Rightarrow> dict \<Rightarrow> dict" where
  "dict_set k v [] = [(k, v)]"
| "dict_set k v ((k', v') # d) =
     (if k = k' then (k, v) # d else (k', v') # dict_set k v d)"

text \<open>\<^verbatim>\<open>d.get(k, default)\<close>\<close>

definition dict_get :: "dict \<Rightarrow> string \<Rightarrow> string \<Rightarrow> string" where
  "dict_get d k dflt = (case map_of d k of None \<Rightarrow> dflt | Some v \<Rightarrow> v)"

definition dict_keys :: "dict \<Rightarrow> string list" where
  "dict_keys d = map fst d"

definition MINISTRY_HEADERS :: "string list" where
  "MINISTRY_HEADERS =
     [''Approval Link'', ''Approval Name'', ''Ministry Name'', ''About this approval'',
      ''Who can apply'', ''Documents required'', ''Approval applicability/trigger'',
      ''Application Fee'', ''Validity'', ''Average Time taken to get this'',
      ''Can be applied through NSWS'']"

definition DEPT_HEADERS :: "string list" where
  "DEPT_HEADERS =
     [''Approval Link'', ''Approval Name'', ''Department Name'', ''About this approval'',
      ''Who can apply'', ''Documents required'', ''Approval applicability/trigger'',
      ''Application Fee'', ''Validity'', ''Average Time taken to get this'',
      ''Can be applied through NSWS'']"

definition ALL_HEADERS :: "string list" where
  "ALL_HEADERS =
     [''Approval Link'', ''Approval Name'', ''Ministry Name'', ''Department Name'',
      ''About this approval'', ''Who can apply'', ''Documents required'',
      ''Approval applicability/trigger'', ''Application Fee'', ''Validity'',
      ''Average Time taken to get this'', ''Can be applied through NSWS'']"

text \<open>
  Exceptions are values. \<open>TimeoutError\<close> and \<open>PlaywrightError\<close> come from the browser
  driver, \<open>ValueError\<close> from \<^verbatim>\<open>csv.DictWriter\<close>.
\<close>

datatype exn = TimeoutError | PlaywrightError | ValueError

text \<open>
  A sink file is the list of the lines written to it. A line remembers the call that wrote
  it: \<^verbatim>\<open>writeheader\<close> or \<^verbatim>\<open>writerow\<close>; the cells of a row carry the name of
  their column. The file system maps a path to the content of the file, \<open>None\<close> when the
  file does not exist.
\<close>

datatype line = Header "string list" | Row "(string \<times> string) list"

type_synonym fs = "string \<Rightarrow> line list option"

definition content :: "fs \<Rightarrow> string \<Rightarrow> line list" where
  "content files p = (case files p of None \<Rightarrow> [] | Some ls \<Rightarrow> ls)"

fun is_header :: "line \<Rightarrow> bool" where
  "is_header (Header hs) = True"
| "is_header (Row cells) = False"

definition header_rows :: "line list \<Rightarrow> nat" where
  "header_rows ls = length (filter is_header ls)"

text \<open>
  \<^verbatim>\<open>
  def write_to_csv(filepath, headers, row_data):
      file_exists = filepath.exists()
      with open(filepath, mode='a', newline='', encoding='utf-8') as f:
          writer = csv.DictWriter(f, fieldnames=headers)
          if not file_exists:
              writer.writeheader()
          writer.writerow(row_data)
  \<close>
  The same in both source files. Mode \<^verbatim>\<open>'a'\<close> creates a missing file and keeps the
  content of an existing one. \<^verbatim>\<open>DictWriter.writerow\<close> raises \<open>ValueError\<close> when the
  row has a key that is no field name (after the header has gone out), and writes
  \<^verbatim>\<open>rowdict.get(key, '')\<close> for every field name otherwise. Opening the file is taken
  to succeed.
\<close>

definition write_to_csv :: "fs \<Rightarrow> string \<Rightarrow> string list \<Rightarrow> dict \<Rightarrow> (exn + unit) \<times> fs" where
  "write_to_csv files filepath headers row_data =
     (let file_exists = (files filepath \<noteq> None);
          opened = content files filepath;
          f = (if \<not> file_exists then opened @ [Header headers] else opened)
      in if list_ex (\<lambda>k. k \<notin> set headers) (dict_keys row_data)
         then (Inl ValueError, files(filepath \<mapsto> f))
         else (Inr (),
               files(filepath \<mapsto> f @ [Row (map (\<lambda>k. (k, dict_get row_data k [])) headers)])))"

section \<open>The detail view\<close>

text \<open>
  A locator is the expression the program builds; the driver resolves it against the
  page each time it is used. \<open>Loc s\<close> is \<^verbatim>\<open>page.locator(s)\<close>, \<open>Sub l s\<close> is
  \<^verbatim>\<open>l.locator(s)\<close>, and \<open>First\<close>, \<open>Last\<close>, \<open>Nth\<close> are \<^verbatim>\<open>.first\<close>,
  \<^verbatim>\<open>.last\<close>, \<^verbatim>\<open>.nth(i)\<close>.
\<close>

datatype locator = Loc string | Sub locator string | First locator | Last locator
  | Nth locator nat

text \<open>
  The detail view of one URL, as the driver shows it once the page has settled: the
  outcome of the navigation, of the wait that follows it, of every query, and of closing
  the view. A query that raises is \<open>Inl\<close>.
\<close>

record view =
  v_goto :: "exn + unit"
  v_settle :: "exn + unit"
  v_count :: "locator \<Rightarrow> exn + nat"
  v_inner_text :: "locator \<Rightarrow> exn + string"
  v_close :: "exn + unit"

text \<open>The browser context: \<^verbatim>\<open>context.new_page()\<close> and the view behind every URL.\<close>

record browser_context =
  new_page :: "exn + unit"
  site :: "string \<Rightarrow> view"

definition quote :: "string \<Rightarrow> string" where
  "quote s = [CHR 0x27] @ s @ [CHR 0x27]"

definition section_xpath :: "string \<Rightarrow> string" where
  "section_xpath keyword =
     ''//*[self::h2 or self::h3 or self::h4 or self::strong or self::b][contains(text(), ''
       @ quote keyword @ '')]''"

definition label_xpath :: "string \<Rightarrow> string" where
  "label_xpath pattern = ''//*[contains(text(), '' @ quote pattern @ '')]''"

definition BANNER :: string where
  "BANNER = ''.banner-content, .approval-banner''"

definition APPLY_BUTTON :: string where
  "APPLY_BUTTON =
     ''button:has-text('' @ quote ''Apply Now'' @ ''), a:has-text('' @ quote ''Apply Now''
       @ ''), button:has-text('' @ quote ''Login to Apply'' @ '')''"

text \<open>
  \<^verbatim>\<open>clean_text(h1.inner_text()) if h1.count() else "N/A"\<close> with
  \<^verbatim>\<open>h1 = page.locator("h1").first\<close>.
\<close>

definition heading_text :: "view \<Rightarrow> exn + string" where
  "heading_text page =
     (case v_count page (First (Loc ''h1'')) of
        Inl e \<Rightarrow> Inl e
      | Inr n \<Rightarrow>
          if n \<noteq> 0
          then (case v_inner_text page (First (Loc ''h1'')) of
                  Inl e \<Rightarrow> Inl e
                | Inr t \<Rightarrow> Inr (clean_text t))
          else Inr ''N/A'')"

text \<open>
  \<^verbatim>\<open>
  lines = [l.strip() for l in banner_text.split('\n') if l.strip()]
  for line in lines:
      if "Ministry" in line:
          data["Ministry Name"] = line
      if "Department" in line:
          data["Department Name"] = line
  \<close>
\<close>

definition banner_lines :: "string \<Rightarrow> string list" where
  "banner_lines banner_text =
     map py_strip (filter (\<lambda>l. py_strip l \<noteq> []) (split_lines banner_text))"

definition classify_line :: "dict \<Rightarrow> string \<Rightarrow> dict" where
  "classify_line data l =
     (let data1 = (if py_in ''Ministry'' l then dict_set ''Ministry Name'' l data else data)
      in if py_in ''Department'' l then dict_set ''Department Name'' l data1 else data1)"

definition scan_banner :: "string \<Rightarrow> dict \<Rightarrow> dict" where
  "scan_banner banner_text data = foldl classify_line data (banner_lines banner_text)"

text \<open>
  nsws_scraper.py:
  \<^verbatim>\<open>
  banner_text = page.locator(B).inner_text() if page.locator(B).count() else ""
  data["Ministry Name"] = "N/A"
  data["Department Name"] = "N/A"
  if banner_text: ...
  \<close>
  The banner is read before the two defaults are stored, so a failing read leaves both
  fields unset.
\<close>

definition banner_step :: "view \<Rightarrow> dict \<Rightarrow> exn + dict" where
  "banner_step page data =
     (case v_count page (Loc BANNER) of
        Inl e \<Rightarrow> Inl e
      | Inr n \<Rightarrow>
          (case (if n \<noteq> 0 then v_inner_text page (Loc BANNER) else Inr []) of
             Inl e \<Rightarrow> Inl e
           | Inr banner_text \<Rightarrow>
               (let data1 = dict_set ''Department Name'' ''N/A''
                              (dict_set ''Ministry Name'' ''N/A'' data)
                in Inr (if banner_text \<noteq> [] then scan_banner banner_text data1 else data1))))"

text \<open>
  nsws_scraper2.py:
  \<^verbatim>\<open>
  def safe_extract_text(page, selector):
      try:
          if page.locator(selector).count() > 0:
              return clean_text(page.locator(selector).first.inner_text())
      except:
          pass
      return "N/A"
  \<close>
\<close>

definition safe_extract_text :: "view \<Rightarrow> string \<Rightarrow> string" where
  "safe_extract_text page selector =
     (case v_count page (Loc selector) of
        Inl e \<Rightarrow> ''N/A''
      | Inr n \<Rightarrow>
          if n > 0
          then (case v_inner_text page (First (Loc selector)) of
                  Inl e \<Rightarrow> ''N/A''
                | Inr t \<Rightarrow> clean_text t)
          else ''N/A'')"

definition banner_step2 :: "view \<Rightarrow> dict \<Rightarrow> exn + dict" where
  "banner_step2 page data =
     (let banner_text = safe_extract_text page BANNER;
          data1 = dict_set ''Department Name'' ''N/A'' (dict_set ''Ministry Name'' ''N/A'' data)
      in Inr (if banner_text \<noteq> ''N/A'' then scan_banner banner_text data1 else data1))"


text \<open>
  nsws_scraper.py:
  \<^verbatim>\<open>
  def get_section_text(header_keywords):
      for keyword in header_keywords:
          xpath = f"//*[self::h2 or ... or self::b][contains(text(), '{keyword}')]"
          header = page.locator(xpath).first
          if header.count() > 0:
              try:
                  content = page.locator(xpath + "/following::div[1]").first
                  return clean_text(content.inner_text())
              except:
                  return "N/A"
      return "N/A"
  \<close>
  The count of the header is outside the inner \<^verbatim>\<open>try\<close>: when it raises, the
  function raises.
\<close>

fun get_section_text :: "view \<Rightarrow> string list \<Rightarrow> exn + string" where
  "get_section_text page [] = Inr ''N/A''"
| "get_section_text page (keyword # header_keywords) =
     (case v_count page (First (Loc (section_xpath keyword))) of
        Inl e \<Rightarrow> Inl e
      | Inr n \<Rightarrow>
          if n > 0
          then (case v_inner_text page
                       (First (Loc (section_xpath keyword @ ''/following::div[1]''))) of
                  Inl e \<Rightarrow> Inr ''N/A''
                | Inr t \<Rightarrow> Inr (clean_text t))
          else get_section_text page header_keywords)"

text \<open>
  nsws_scraper2.py:
  \<^verbatim>\<open>
          if header.count() > 0:
              try:
                  content = page.locator(xpath + "/following-sibling::div[1] | "
                                         + xpath + "/following-sibling::p[1]").first
                  if content.count():
                       return clean_text(content.inner_text())
                  content_parent = page.locator(xpath + "/..").locator("div").last
                  return clean_text(content_parent.inner_text())
              except:
                  return "N/A"
  \<close>
\<close>

definition section_content2 :: "view \<Rightarrow> string \<Rightarrow> exn + string" where
  "section_content2 page xpath =
     (let content = First (Loc (xpath @ ''/following-sibling::div[1] | '' @ xpath
                                  @ ''/following-sibling::p[1]''))
      in case v_count page content of
           Inl e \<Rightarrow> Inl e
         | Inr n \<Rightarrow>
             if n \<noteq> 0 then v_inner_text page content
             else v_inner_text page (Last (Sub (Loc (xpath @ ''/..'')) ''div'')))"

fun get_section_text2 :: "view \<Rightarrow> string list \<Rightarrow> exn + string" where
  "get_section_text2 page [] = Inr ''N/A''"
| "get_section_text2 page (keyword # header_keywords) =
     (case v_count page (First (Loc (section_xpath keyword))) of
        Inl e \<Rightarrow> Inl e
      | Inr n \<Rightarrow>
          if n > 0
          then (case section_content2 page (section_xpath keyword) of
                  Inl e \<Rightarrow> Inr ''N/A''
                | Inr t \<Rightarrow> Inr (clean_text t))
          else get_section_text2 page header_keywords)"

text \<open>
  nsws_scraper.py:
  \<^verbatim>\<open>
  def get_labeled_value(label_patterns):
      for pattern in label_patterns:
          try:
              xpath = f"//*[contains(text(), '{pattern}')]"
              el = page.locator(xpath).last
              if el.count():
                  full_text = el.locator("xpath=..").inner_text()
                  return clean_text(full_text.replace(pattern, ""))
          except:
              continue
      return "N/A"
  \<close>
\<close>

fun get_labeled_value :: "view \<Rightarrow> string list \<Rightarrow> string" where
  "get_labeled_value page [] = ''N/A''"
| "get_labeled_value page (pattern # label_patterns) =
     (let el = Last (Loc (label_xpath pattern))
      in case v_count page el of
           Inl e \<Rightarrow> get_labeled_value page label_patterns
         | Inr n \<Rightarrow>
             if n \<noteq> 0
             then (case v_inner_text page (Sub el ''xpath=..'') of
                     Inl e \<Rightarrow> get_labeled_value page label_patterns
                   | Inr full_text \<Rightarrow> clean_text (py_replace pattern [] full_text))
             else get_labeled_value page label_patterns)"

text \<open>
  nsws_scraper2.py:
  \<^verbatim>\<open>
  def get_labeled_value(label_patterns):
      for pattern in label_patterns:
          try:
              xpath = f"//*[contains(text(), '{pattern}')]"
              el = page.locator(xpath)
              if el.count() > 0:
                  full_text = el.last.locator("xpath=..").inner_text()
                  cleaned = clean_text(full_text.replace(pattern, "").replace(":", ""))
                  if len(cleaned) < 2:
                       next_sib = el.last.locator("xpath=following-sibling::*[1]")
                       if next_sib.count(): return clean_text(next_sib.inner_text())
                  return cleaned
          except:
              continue
      return "N/A"
  \<close>
  \<open>labeled_match2\<close> is the body of the \<^verbatim>\<open>try\<close> once the pattern has a match:
  \<open>Inl\<close> when it raises, and the loop goes on with the next pattern.
\<close>

definition labeled_match2 :: "view \<Rightarrow> string \<Rightarrow> exn + string" where
  "labeled_match2 page pattern =
     (let el = Loc (label_xpath pattern)
      in case v_inner_text page (Sub (Last el) ''xpath=..'') of
           Inl e \<Rightarrow> Inl e
         | Inr full_text \<Rightarrow>
             (let cleaned = clean_text (py_replace '':'' [] (py_replace pattern [] full_text));
                  next_sib = Sub (Last el) ''xpath=following-sibling::*[1]''
              in if length cleaned < 2
                 then (case v_count page next_sib of
                         Inl e \<Rightarrow> Inl e
                       | Inr m \<Rightarrow>
                           if m \<noteq> 0
                           then (case v_inner_text page next_sib of
                                   Inl e \<Rightarrow> Inl e
                                 | Inr t \<Rightarrow> Inr (clean_text t))
                           else Inr cleaned)
                 else Inr cleaned))"

fun get_labeled_value2 :: "view \<Rightarrow> string list \<Rightarrow> string" where
  "get_labeled_value2 page [] = ''N/A''"
| "get_labeled_value2 page (pattern # label_patterns) =
     (case v_count page (Loc (label_xpath pattern)) of
        Inl e \<Rightarrow> get_labeled_value2 page label_patterns
      | Inr n \<Rightarrow>
          if n > 0
          then (case labeled_match2 page pattern of
                  Inl e \<Rightarrow> get_labeled_value2 page label_patterns
                | Inr value \<Rightarrow> value)
          else get_labeled_value2 page label_patterns)"

text \<open>
  The body of the \<^verbatim>\<open>try\<close> of \<^verbatim>\<open>extract_detail_page\<close> is a sequence of
  statements over the record \<^verbatim>\<open>data\<close>. A statement either raises or returns the
  record it has updated; when one raises, the handler sees the record as the statements
  before it left it.
\<close>

type_synonym step = "dict \<Rightarrow> exn + dict"

fun run_steps :: "step list \<Rightarrow> dict \<Rightarrow> (exn \<times> dict) + dict" where
  "run_steps [] data = Inr data"
| "run_steps (s # ss) data =
     (case s data of Inl e \<Rightarrow> Inl (e, data) | Inr data1 \<Rightarrow> run_steps ss data1)"

text \<open>A statement without effect on the record: it raises or it does not.\<close>

definition effect :: "exn + unit \<Rightarrow> step" where
  "effect r data = (case r of Inl e \<Rightarrow> Inl e | Inr u \<Rightarrow> Inr data)"

text \<open>\<^verbatim>\<open>try: ... except: pass\<close> around such a statement.\<close>

definition ignored :: "exn + unit \<Rightarrow> step" where
  "ignored r data = Inr data"

text \<open>\<^verbatim>\<open>data[k] = value\<close>, where evaluating the value may raise.\<close>

definition assign :: "string \<Rightarrow> exn + string \<Rightarrow> step" where
  "assign k r data = (case r of Inl e \<Rightarrow> Inl e | Inr value \<Rightarrow> Inr (dict_set k value data))"

text \<open>
  \<^verbatim>\<open>
  apply_btn = page.locator("button:has-text('Apply Now'), a:has-text('Apply Now'),
                            button:has-text('Login to Apply')")
  if apply_btn.count() > 0:
      data["Can be applied through NSWS"] = "Yes"
  else:
      data["Can be applied through NSWS"] = "No (Information Only)"
  \<close>
\<close>

definition applicability :: "view \<Rightarrow> exn + string" where
  "applicability page =
     (case v_count page (Loc APPLY_BUTTON) of
        Inl e \<Rightarrow> Inl e
      | Inr n \<Rightarrow> Inr (if n > 0 then ''Yes'' else ''No (Information Only)''))"

text \<open>The statements of nsws_scraper.py, lines 64 to 145.\<close>

definition detail_steps :: "view \<Rightarrow> string \<Rightarrow> step list" where
  "detail_steps page url =
     [effect (v_goto page),
      ignored (v_settle page),
      assign ''Approval Link'' (Inr url),
      assign ''Approval Name'' (heading_text page),
      banner_step page,
      assign ''About this approval''
        (get_section_text page [''About'', ''Brief'', ''Description'']),
      assign ''Who can apply'' (get_section_text page [''Who can'', ''Eligibility'']),
      assign ''Documents required''
        (get_section_text page [''Documents'', ''Enclosures'', ''Attachment'']),
      assign ''Approval applicability/trigger''
        (get_section_text page [''Applicability'', ''Trigger'']),
      assign ''Application Fee''
        (Inr (get_labeled_value page [''Fee'', ''Payment'', ''Cost''])),
      assign ''Validity'' (Inr (get_labeled_value page [''Validity'', ''Valid For''])),
      assign ''Average Time taken to get this''
        (Inr (get_labeled_value page [''Time'', ''Timeline'', ''SLA''])),
      assign ''Can be applied through NSWS'' (applicability page)]"

text \<open>
  The statements of nsws_scraper2.py, lines 79 to 170. The two \<^verbatim>\<open>time.sleep\<close> calls
  return; the view is read as it is after them.
\<close>

definition detail_steps2 :: "view \<Rightarrow> string \<Rightarrow> step list" where
  "detail_steps2 page url =
     [effect (v_goto page),
      ignored (v_settle page),
      assign ''Approval Link'' (Inr url),
      assign ''Approval Name'' (heading_text page),
      banner_step2 page,
      assign ''About this approval''
        (get_section_text2 page [''About'', ''Brief'', ''Description'', ''Objective'']),
      assign ''Who can apply''
        (get_section_text2 page [''Who can'', ''Eligibility'', ''Beneficiary'']),
      assign ''Documents required''
        (get_section_text2 page [''Documents'', ''Enclosures'', ''Attachment'', ''Checklist'']),
      assign ''Approval applicability/trigger''
        (get_section_text2 page [''Applicability'', ''Trigger'', ''Prerequisite'']),
      assign ''Application Fee''
        (Inr (get_labeled_value2 page [''Fee'', ''Payment'', ''Cost'', ''Price''])),
      assign ''Validity'' (Inr (get_labeled_value2 page [''Validity'', ''Valid For''])),
      assign ''Average Time taken to get this''
        (Inr (get_labeled_value2 page [''Time'', ''Timeline'', ''SLA'', ''Duration''])),
      assign ''Can be applied through NSWS'' (applicability page)]"

text \<open>
  \<^verbatim>\<open>
  except Exception as e:
      for k in ALL_HEADERS:
          if k not in data: data[k] = "Error"
  \<close>
\<close>

definition fill_error :: "dict \<Rightarrow> dict" where
  "fill_error data =
     foldl (\<lambda>d k. if k \<notin> set (dict_keys d) then dict_set k ''Error'' d else d)
       data ALL_HEADERS"

text \<open>
  \<^verbatim>\<open>
  def extract_detail_page(context, url):
      page = context.new_page()
      data = {}
      try:
          ...
      except Exception as e:
          ...
      finally:
          page.close()
      return data
  \<close>
  \<^verbatim>\<open>context.new_page()\<close> is outside the \<^verbatim>\<open>try\<close>, and an exception of
  \<^verbatim>\<open>page.close()\<close> leaves the function.
\<close>

definition fetch :: "(view \<Rightarrow> string \<Rightarrow> step list) \<Rightarrow> browser_context \<Rightarrow> string \<Rightarrow> exn + dict" where
  "fetch steps ctx url =
     (case new_page ctx of
        Inl e \<Rightarrow> Inl e
      | Inr u \<Rightarrow>
          (let page = site ctx url;
               data = (case run_steps (steps page url) [] of
                         Inl (e, d) \<Rightarrow> fill_error d
                       | Inr d \<Rightarrow> d)
           in case v_close page of Inl e \<Rightarrow> Inl e | Inr u \<Rightarrow> Inr data))"

definition extract_detail_page :: "browser_context \<Rightarrow> string \<Rightarrow> exn + dict" where
  "extract_detail_page ctx url = fetch detail_steps ctx url"

definition extract_detail_page2 :: "browser_context \<Rightarrow> string \<Rightarrow> exn + dict" where
  "extract_detail_page2 ctx url = fetch detail_steps2 ctx url"


section \<open>The results view\<close>

text \<open>
  The results view is the interface of the browser driver over a state \<open>'w\<close> of the
  browser: queries read the state, actions return the new state together with their
  outcome, and \<open>d_sleep w n\<close> is the state after a pause of at most \<open>n\<close> seconds.
  \<open>d_expect_response\<close> is the wait of \<^verbatim>\<open>page.expect_response\<close> for a response with
  status 200. \<open>d_urljoin\<close> is \<^verbatim>\<open>urllib.parse.urljoin\<close>.
\<close>

record 'w driver =
  d_count :: "'w \<Rightarrow> locator \<Rightarrow> exn + nat"
  d_inner_text :: "'w \<Rightarrow> locator \<Rightarrow> exn + string"
  d_get_attribute :: "'w \<Rightarrow> locator \<Rightarrow> string \<Rightarrow> exn + string option"
  d_wait_for_selector :: "'w \<Rightarrow> string \<Rightarrow> (exn + unit) \<times> 'w"
  d_scroll_into_view :: "'w \<Rightarrow> locator \<Rightarrow> (exn + unit) \<times> 'w"
  d_click :: "'w \<Rightarrow> locator \<Rightarrow> (exn + unit) \<times> 'w"
  d_expect_response :: "'w \<Rightarrow> (exn + unit) \<times> 'w"
  d_reload :: "'w \<Rightarrow> (exn + unit) \<times> 'w"
  d_sleep :: "'w \<Rightarrow> nat \<Rightarrow> 'w"
  d_context :: "'w \<Rightarrow> browser_context"
  d_urljoin :: "string \<Rightarrow> string \<Rightarrow> string"

definition BASE_URL :: string where
  "BASE_URL = ''https://www.nsws.gov.in/portal/approvalsandregistrations''"

definition CARDS :: string where
  "CARDS = ''.card, .common-card-container, .approval-license-info''"

definition NEXT_LI :: string where
  "NEXT_LI = ''li.ant-pagination-next''"

text \<open>
  \<^verbatim>\<open>
  if extra_fields_map:
      for k, v in extra_fields_map.items():
          row_data[k] = v
  \<close>
\<close>

definition overlay :: "dict \<Rightarrow> dict \<Rightarrow> dict" where
  "overlay extra_fields_map row_data = foldl (\<lambda>d (k, v). dict_set k v d) row_data extra_fields_map"

text \<open>\<^verbatim>\<open>safe_row = {k: row_data.get(k, "N/A") for k in headers}\<close>\<close>

definition safe_row :: "string list \<Rightarrow> dict \<Rightarrow> dict" where
  "safe_row headers row_data =
     foldl (\<lambda>d k. dict_set k (dict_get row_data k ''N/A'') d) [] headers"

text \<open>
  The body of the loop over the cards, the same in both source files but for the
  extraction function it calls and the pause of nsws_scraper2.py after the write:
  \<^verbatim>\<open>
  try:
      card = cards.nth(i)
      link_el = card.locator("a").first
      href = link_el.get_attribute("href")
      if href:
          full_url = urljoin(BASE_URL, href)
          row_data = extract_detail_page(context, full_url)
          if extra_fields_map: ...
          safe_row = {k: row_data.get(k, "N/A") for k in headers}
          write_to_csv(csv_path, headers, safe_row)
          time.sleep(random.uniform(2.0, 4.0))      # nsws_scraper2.py only
  except Exception as e:
      continue
  \<close>
\<close>

definition card_step ::
  "(browser_context \<Rightarrow> string \<Rightarrow> exn + dict) \<Rightarrow> ('w \<Rightarrow> 'w) \<Rightarrow> 'w driver \<Rightarrow> string \<Rightarrow>
   string list \<Rightarrow> dict \<Rightarrow> 'w \<times> fs \<Rightarrow> nat \<Rightarrow> 'w \<times> fs" where
  "card_step extract pause d csv_path headers extra_fields_map st i =
     (case st of (w, files) \<Rightarrow>
        (case d_get_attribute d w (First (Sub (Nth (Loc CARDS) i) ''a'')) ''href'' of
           Inl e \<Rightarrow> (w, files)
         | Inr None \<Rightarrow> (w, files)
         | Inr (Some href) \<Rightarrow>
             if href = [] then (w, files)
             else (case extract (d_context d w) (d_urljoin d BASE_URL href) of
                     Inl e \<Rightarrow> (w, files)
                   | Inr row_data \<Rightarrow>
                       (case write_to_csv files csv_path headers
                               (safe_row headers (overlay extra_fields_map row_data)) of
                          (Inl e, files1) \<Rightarrow> (w, files1)
                        | (Inr u, files1) \<Rightarrow> (pause w, files1)))))"

definition process_card ::
  "'w driver \<Rightarrow> string \<Rightarrow> string list \<Rightarrow> dict \<Rightarrow> 'w \<times> fs \<Rightarrow> nat \<Rightarrow> 'w \<times> fs" where
  "process_card d = card_step extract_detail_page (\<lambda>w. w) d"

definition process_card2 ::
  "'w driver \<Rightarrow> string \<Rightarrow> string list \<Rightarrow> dict \<Rightarrow> 'w \<times> fs \<Rightarrow> nat \<Rightarrow> 'w \<times> fs" where
  "process_card2 d = card_step extract_detail_page2 (\<lambda>w. d_sleep d w 4) d"

text \<open>
  The end of one turn of the \<^verbatim>\<open>while True\<close> loop: the loop is left, normally or by
  an exception, or the view has moved to the next page.
\<close>

datatype 'w pagination = Terminal "exn + unit" 'w | Advanced 'w

text \<open>
  nsws_scraper.py:
  \<^verbatim>\<open>
  next_li = page.locator("li.ant-pagination-next")
  if next_li.count() == 0 or "ant-pagination-disabled" in (next_li.get_attribute("class") or ""):
      break
  try:
      next_btn = next_li.locator("a, button").first
      if next_btn.count() > 0:
          with page.expect_response(lambda response: response.status == 200, timeout=10000):
              next_btn.click()
          time.sleep(2)
      else:
          break
  except Exception as e:
      break
  \<close>
  The two queries of \<^verbatim>\<open>next_li\<close> are outside the \<^verbatim>\<open>try\<close>.
\<close>

definition next_page :: "'w driver \<Rightarrow> 'w \<Rightarrow> 'w pagination" where
  "next_page d w =
     (case d_count d w (Loc NEXT_LI) of
        Inl e \<Rightarrow> Terminal (Inl e) w
      | Inr n \<Rightarrow>
          if n = 0 then Terminal (Inr ()) w
          else (case d_get_attribute d w (Loc NEXT_LI) ''class'' of
                  Inl e \<Rightarrow> Terminal (Inl e) w
                | Inr cls \<Rightarrow>
                    if py_in ''ant-pagination-disabled'' (case cls of None \<Rightarrow> [] | Some c \<Rightarrow> c)
                    then Terminal (Inr ()) w
                    else (case d_count d w (First (Sub (Loc NEXT_LI) ''a, button'')) of
                            Inl e \<Rightarrow> Terminal (Inr ()) w
                          | Inr m \<Rightarrow>
                              if m > 0
                              then (case d_click d w (First (Sub (Loc NEXT_LI) ''a, button'')) of
                                      (Inl e, w1) \<Rightarrow> Terminal (Inr ()) w1
                                    | (Inr u, w1) \<Rightarrow>
                                        (case d_expect_response d w1 of
                                           (Inl e, w2) \<Rightarrow> Terminal (Inr ()) w2
                                         | (Inr u, w2) \<Rightarrow> Advanced (d_sleep d w2 2)))
                              else Terminal (Inr ()) w)))"

text \<open>
  nsws_scraper2.py:
  \<^verbatim>\<open>
  next_li = page.locator("li.ant-pagination-next")
  if next_li.count() == 0:
      break
  class_attr = next_li.get_attribute("class") or ""
  if "ant-pagination-disabled" in class_attr:
      break
  try:
      next_btn = next_li.locator("a, button").first
      if next_btn.count() > 0:
          next_btn.click()
          time.sleep(3)
          page_num += 1
      else:
          break
  except Exception as e:
      break
  \<close>
\<close>

definition next_page2 :: "'w driver \<Rightarrow> 'w \<Rightarrow> 'w pagination" where
  "next_page2 d w =
     (case d_count d w (Loc NEXT_LI) of
        Inl e \<Rightarrow> Terminal (Inl e) w
      | Inr n \<Rightarrow>
          if n = 0 then Terminal (Inr ()) w
          else (case d_get_attribute d w (Loc NEXT_LI) ''class'' of
                  Inl e \<Rightarrow> Terminal (Inl e) w
                | Inr cls \<Rightarrow>
                    if py_in ''ant-pagination-disabled'' (case cls of None \<Rightarrow> [] | Some c \<Rightarrow> c)
                    then Terminal (Inr ()) w
                    else (case d_count d w (First (Sub (Loc NEXT_LI) ''a, button'')) of
                            Inl e \<Rightarrow> Terminal (Inr ()) w
                          | Inr m \<Rightarrow>
                              if m > 0
                              then (case d_click d w (First (Sub (Loc NEXT_LI) ''a, button'')) of
                                      (Inl e, w1) \<Rightarrow> Terminal (Inr ()) w1
                                    | (Inr u, w1) \<Rightarrow> Advanced (d_sleep d w1 3))
                              else Terminal (Inr ()) w)))"

text \<open>
  The \<^verbatim>\<open>while True\<close> loop of nsws_scraper.py. Nothing bounds the number of pages the
  site serves, so the loop takes fuel, one unit for each page. The result is the outcome
  of the call, the number of the page the loop is on (the first page has number 1), the
  state of the browser and the files. The outcome \<open>None\<close> is a run that is still in the
  loop when the fuel is used up; \<open>Some (Inr ())\<close> is a return and \<open>Some (Inl e)\<close> an
  exception that leaves the function.
  \<^verbatim>\<open>
  while True:
      cards = page.locator(".card, .common-card-container, .approval-license-info")
      count = cards.count()
      for i in range(count):
          ...
      ...
  \<close>
\<close>

type_synonym 'w walk = "(exn + unit) option \<times> nat \<times> 'w \<times> fs"

fun pages_loop ::
  "nat \<Rightarrow> 'w driver \<Rightarrow> string \<Rightarrow> string list \<Rightarrow> dict \<Rightarrow> nat \<Rightarrow> 'w \<Rightarrow> fs \<Rightarrow> 'w walk" where
  "pages_loop 0 d csv_path headers extra_fields_map page_num w files =
     (None, page_num, w, files)"
| "pages_loop (Suc fuel) d csv_path headers extra_fields_map page_num w files =
     (case d_count d w (Loc CARDS) of
        Inl e \<Rightarrow> (Some (Inl e), page_num, w, files)
      | Inr count \<Rightarrow>
          (case foldl (process_card d csv_path headers extra_fields_map) (w, files) [0..<count] of
             (w1, files1) \<Rightarrow>
               (case next_page d w1 of
                  Terminal r w2 \<Rightarrow> (Some r, page_num, w2, files1)
                | Advanced w2 \<Rightarrow>
                    pages_loop fuel d csv_path headers extra_fields_map (page_num + 1) w2 files1)))"

definition handle_pagination_and_extraction ::
  "nat \<Rightarrow> 'w driver \<Rightarrow> string \<Rightarrow> string list \<Rightarrow> dict \<Rightarrow> 'w \<Rightarrow> fs \<Rightarrow> 'w walk" where
  "handle_pagination_and_extraction fuel d csv_path headers extra_fields_map w files =
     pages_loop fuel d csv_path headers extra_fields_map 1 w files"

text \<open>
  The loop of nsws_scraper2.py, which first waits for a card:
  \<^verbatim>\<open>
  page_num = 1
  while True:
      try:
          page.wait_for_selector(".card, .common-card-container, .approval-license-info",
                                 timeout=10000)
      except:
          print("   No cards found on this page.")
          break
      ...
  \<close>
\<close>

fun pages_loop2 ::
  "nat \<Rightarrow> 'w driver \<Rightarrow> string \<Rightarrow> string list \<Rightarrow> dict \<Rightarrow> nat \<Rightarrow> 'w \<Rightarrow> fs \<Rightarrow> 'w walk" where
  "pages_loop2 0 d csv_path headers extra_fields_map page_num w files =
     (None, page_num, w, files)"
| "pages_loop2 (Suc fuel) d csv_path headers extra_fields_map page_num w files =
     (case d_wait_for_selector d w CARDS of
        (Inl e, w0) \<Rightarrow> (Some (Inr ()), page_num, w0, files)
      | (Inr u, w0) \<Rightarrow>
          (case d_count d w0 (Loc CARDS) of
             Inl e \<Rightarrow> (Some (Inl e), page_num, w0, files)
           | Inr count \<Rightarrow>
               (case foldl (process_card2 d csv_path headers extra_fields_map) (w0, files)
                       [0..<count] of
                  (w1, files1) \<Rightarrow>
                    (case next_page2 d w1 of
                       Terminal r w2 \<Rightarrow> (Some r, page_num, w2, files1)
                     | Advanced w2 \<Rightarrow>
                         pages_loop2 fuel d csv_path headers extra_fields_map (page_num + 1)
                           w2 files1))))"

definition handle_pagination_and_extraction2 ::
  "nat \<Rightarrow> 'w driver \<Rightarrow> string \<Rightarrow> string list \<Rightarrow> dict \<Rightarrow> 'w \<Rightarrow> fs \<Rightarrow> 'w walk" where
  "handle_pagination_and_extraction2 fuel d csv_path headers extra_fields_map w files =
     pages_loop2 fuel d csv_path headers extra_fields_map 1 w files"

section \<open>The filter iterator\<close>

definition FILTER_HEADERS :: string where
  "FILTER_HEADERS = ''.filter-type h3, .filter-type .title, .filter-head''"

definition FILTER_TYPE :: string where
  "FILTER_TYPE = ''.filter-type''"

definition CHECKBOXES :: string where
  "CHECKBOXES = ''label.ant-checkbox-wrapper''"

definition ANCESTOR :: string where
  "ANCESTOR = ''xpath=ancestor::div[contains(@class, '' @ quote ''filter-type'' @ '')]''"

text \<open>
  \<^verbatim>\<open>re.sub(r'\(\d+\)$', '', s)\<close> on a string that \<^verbatim>\<open>strip()\<close> has returned, so
  that \<open>$\<close> is the end of the string: a closing parenthesis at the end, one digit or more
  before it and an opening parenthesis before them are removed.
\<close>

definition strip_count :: "string \<Rightarrow> string" where
  "strip_count s =
     (case rev s of
        [] \<Rightarrow> s
      | c # r \<Rightarrow>
          if c = CHR '')'' \<and> takeWhile isdigit r \<noteq> [] \<and>
             (case dropWhile isdigit r of [] \<Rightarrow> False | p # before \<Rightarrow> p = CHR ''('')
          then rev (tl (dropWhile isdigit r))
          else s)"

text \<open>
  \<^verbatim>\<open>
  filter_name_raw = current_checkbox.inner_text().strip()
  filter_name = re.sub(r'\(\d+\)$', '', filter_name_raw).strip()
  \<close>
\<close>

definition canonical_name :: "string \<Rightarrow> string" where
  "canonical_name inner_text = py_strip (strip_count (py_strip inner_text))"

text \<open>
  \<^verbatim>\<open>
  for i in range(count):
      txt = filter_headers.nth(i).inner_text()
      if section_name.lower() in txt.lower():
          target_block = filter_headers.nth(i).locator(
              "xpath=ancestor::div[contains(@class, 'filter-type')]")
          break
  \<close>
\<close>

fun find_block :: "'w driver \<Rightarrow> 'w \<Rightarrow> string \<Rightarrow> nat list \<Rightarrow> exn + locator option" where
  "find_block d w section_name [] = Inr None"
| "find_block d w section_name (i # rest) =
     (case d_inner_text d w (Nth (Loc FILTER_HEADERS) i) of
        Inl e \<Rightarrow> Inl e
      | Inr txt \<Rightarrow>
          if py_in (lower section_name) (lower txt)
          then Inr (Some (Sub (Nth (Loc FILTER_HEADERS) i) ANCESTOR))
          else find_block d w section_name rest)"

text \<open>
  The container chosen by position:
  \<^verbatim>\<open>page.locator(".filter-type").nth(0 if token in section_name else 1)\<close>. The token is
  "Ministry" in nsws_scraper.py and "Ministr" in nsws_scraper2.py.
\<close>

definition positional_block :: "string \<Rightarrow> string \<Rightarrow> locator" where
  "positional_block token section_name =
     Nth (Loc FILTER_TYPE) (if py_in token section_name then 0 else 1)"

text \<open>
  The outcome of a phase: \<open>None\<close> when a walk inside it has used up its fuel, a return
  or an exception otherwise, with the state of the browser and the files.
\<close>

type_synonym 'w phase = "(exn + unit) option \<times> 'w \<times> fs"

text \<open>
  The body of the \<^verbatim>\<open>try\<close> for one option, the same in both source files but for
  the walk it calls and the two pauses:
  \<^verbatim>\<open>
  current_checkbox = checkboxes.nth(i)
  filter_name_raw = current_checkbox.inner_text().strip()
  filter_name = re.sub(r'\(\d+\)$', '', filter_name_raw).strip()
  current_checkbox.scroll_into_view_if_needed()
  current_checkbox.click()
  time.sleep(2)
  handle_pagination_and_extraction(page, context, csv_path, headers,
      extra_fields_map={header_key_for_filter_name: filter_name})
  current_checkbox.click()
  time.sleep(1)
  \<close>
\<close>

definition option_body ::
  "(dict \<Rightarrow> 'w \<Rightarrow> fs \<Rightarrow> 'w walk) \<Rightarrow> nat \<Rightarrow> nat \<Rightarrow> 'w driver \<Rightarrow> string \<Rightarrow> locator \<Rightarrow>
   'w \<Rightarrow> fs \<Rightarrow> 'w phase" where
  "option_body walk settle reset d header_key current_checkbox w files =
     (case d_inner_text d w current_checkbox of
        Inl e \<Rightarrow> (Some (Inl e), w, files)
      | Inr filter_name_raw \<Rightarrow>
          (case d_scroll_into_view d w current_checkbox of
             (Inl e, w1) \<Rightarrow> (Some (Inl e), w1, files)
           | (Inr u, w1) \<Rightarrow>
               (case d_click d w1 current_checkbox of
                  (Inl e, w2) \<Rightarrow> (Some (Inl e), w2, files)
                | (Inr u, w2) \<Rightarrow>
                    (case walk [(header_key, canonical_name filter_name_raw)]
                            (d_sleep d w2 settle) files of
                       (None, n, w3, files1) \<Rightarrow> (None, w3, files1)
                     | (Some (Inl e), n, w3, files1) \<Rightarrow> (Some (Inl e), w3, files1)
                     | (Some (Inr u), n, w3, files1) \<Rightarrow>
                         (case d_click d w3 current_checkbox of
                            (Inl e, w4) \<Rightarrow> (Some (Inl e), w4, files1)
                          | (Inr u, w4) \<Rightarrow> (Some (Inr ()), d_sleep d w4 reset, files1))))))"

text \<open>
  The loop over the options of nsws_scraper.py, with the handler that follows the body:
  \<^verbatim>\<open>
  for i in range(total_filters):
      try:
          ...
      except Exception as e:
          page.reload()
          time.sleep(3)
          target_block = page.locator(".filter-type").nth(0 if "Ministry" in section_name else 1)
          checkboxes = target_block.locator("label.ant-checkbox-wrapper")
  \<close>
  An exception of \<^verbatim>\<open>page.reload()\<close> leaves the function.
\<close>

fun options_loop ::
  "nat \<Rightarrow> 'w driver \<Rightarrow> string \<Rightarrow> string \<Rightarrow> string list \<Rightarrow> string \<Rightarrow> nat list \<Rightarrow> locator \<Rightarrow>
   'w \<Rightarrow> fs \<Rightarrow> 'w phase" where
  "options_loop fuel d section_name csv_path headers header_key [] checkboxes w files =
     (Some (Inr ()), w, files)"
| "options_loop fuel d section_name csv_path headers header_key (i # rest) checkboxes w files =
     (case option_body (handle_pagination_and_extraction fuel d csv_path headers) 2 1 d
             header_key (Nth checkboxes i) w files of
        (None, w1, files1) \<Rightarrow> (None, w1, files1)
      | (Some (Inr u), w1, files1) \<Rightarrow>
          options_loop fuel d section_name csv_path headers header_key rest checkboxes w1 files1
      | (Some (Inl e), w1, files1) \<Rightarrow>
          (case d_reload d w1 of
             (Inl e1, w2) \<Rightarrow> (Some (Inl e1), w2, files1)
           | (Inr u, w2) \<Rightarrow>
               options_loop fuel d section_name csv_path headers header_key rest
                 (Sub (positional_block ''Ministry'' section_name) CHECKBOXES)
                 (d_sleep d w2 3) files1))"

text \<open>
  The loop of nsws_scraper2.py, whose handler keeps the container found before the loop:
  \<^verbatim>\<open>
      except Exception as e:
          page.reload()
          time.sleep(4)
          checkboxes = target_block.locator("label.ant-checkbox-wrapper")
  \<close>
\<close>

fun options_loop2 ::
  "nat \<Rightarrow> 'w driver \<Rightarrow> locator \<Rightarrow> string \<Rightarrow> string list \<Rightarrow> string \<Rightarrow> nat list \<Rightarrow> locator \<Rightarrow>
   'w \<Rightarrow> fs \<Rightarrow> 'w phase" where
  "options_loop2 fuel d target_block csv_path headers header_key [] checkboxes w files =
     (Some (Inr ()), w, files)"
| "options_loop2 fuel d target_block csv_path headers header_key (i # rest) checkboxes w files =
     (case option_body (handle_pagination_and_extraction2 fuel d csv_path headers) 3 2 d
             header_key (Nth checkboxes i) w files of
        (None, w1, files1) \<Rightarrow> (None, w1, files1)
      | (Some (Inr u), w1, files1) \<Rightarrow>
          options_loop2 fuel d target_block csv_path headers header_key rest checkboxes w1 files1
      | (Some (Inl e), w1, files1) \<Rightarrow>
          (case d_reload d w1 of
             (Inl e1, w2) \<Rightarrow> (Some (Inl e1), w2, files1)
           | (Inr u, w2) \<Rightarrow>
               options_loop2 fuel d target_block csv_path headers header_key rest
                 (Sub target_block CHECKBOXES) (d_sleep d w2 4) files1))"

text \<open>
  nsws_scraper.py:
  \<^verbatim>\<open>
  def click_filter_and_process(page, context, section_name, csv_path, headers,
                               header_key_for_filter_name):
      page.wait_for_selector(".filter-section", state="visible")
      filter_headers = page.locator(".filter-type h3, .filter-type .title, .filter-head")
      target_block = None
      count = filter_headers.count()
      for i in range(count): ...
      if not target_block:
          fallback_idx = 0 if "Ministry" in section_name else 1
          target_block = page.locator(".filter-type").nth(fallback_idx)
      checkboxes = target_block.locator("label.ant-checkbox-wrapper")
      total_filters = checkboxes.count()
      for i in range(total_filters): ...
  \<close>
  The fuel is the fuel of each walk.
\<close>

definition click_filter_and_process ::
  "nat \<Rightarrow> 'w driver \<Rightarrow> string \<Rightarrow> string \<Rightarrow> string list \<Rightarrow> string \<Rightarrow> 'w \<Rightarrow> fs \<Rightarrow> 'w phase" where
  "click_filter_and_process fuel d section_name csv_path headers header_key w files =
     (case d_wait_for_selector d w ''.filter-section'' of
        (Inl e, w0) \<Rightarrow> (Some (Inl e), w0, files)
      | (Inr u, w0) \<Rightarrow>
          (case d_count d w0 (Loc FILTER_HEADERS) of
             Inl e \<Rightarrow> (Some (Inl e), w0, files)
           | Inr count \<Rightarrow>
               (case find_block d w0 section_name [0..<count] of
                  Inl e \<Rightarrow> (Some (Inl e), w0, files)
                | Inr found \<Rightarrow>
                    (let target_block = (case found of
                                           None \<Rightarrow> positional_block ''Ministry'' section_name
                                         | Some block \<Rightarrow> block);
                         checkboxes = Sub target_block CHECKBOXES
                     in case d_count d w0 checkboxes of
                          Inl e \<Rightarrow> (Some (Inl e), w0, files)
                        | Inr total_filters \<Rightarrow>
                            options_loop fuel d section_name csv_path headers header_key
                              [0..<total_filters] checkboxes w0 files))))"

text \<open>
  nsws_scraper2.py, the same but for the token of the fallback, \<^verbatim>\<open>"Ministr"\<close>, and
  the loop.
\<close>

definition click_filter_and_process2 ::
  "nat \<Rightarrow> 'w driver \<Rightarrow> string \<Rightarrow> string \<Rightarrow> string list \<Rightarrow> string \<Rightarrow> 'w \<Rightarrow> fs \<Rightarrow> 'w phase" where
  "click_filter_and_process2 fuel d section_name csv_path headers header_key w files =
     (case d_wait_for_selector d w ''.filter-section'' of
        (Inl e, w0) \<Rightarrow> (Some (Inl e), w0, files)
      | (Inr u, w0) \<Rightarrow>
          (case d_count d w0 (Loc FILTER_HEADERS) of
             Inl e \<Rightarrow> (Some (Inl e), w0, files)
           | Inr count \<Rightarrow>
               (case find_block d w0 section_name [0..<count] of
                  Inl e \<Rightarrow> (Some (Inl e), w0, files)
                | Inr found \<Rightarrow>
                    (let target_block = (case found of
                                           None \<Rightarrow> positional_block ''Ministr'' section_name
                                         | Some block \<Rightarrow> block);
                         checkboxes = Sub target_block CHECKBOXES
                     in case d_count d w0 checkboxes of
                          Inl e \<Rightarrow> (Some (Inl e), w0, files)
                        | Inr total_filters \<Rightarrow>
                            options_loop2 fuel d target_block csv_path headers header_key
                              [0..<total_filters] checkboxes w0 files))))"

text \<open>
  A run is a sequence of calls of \<^verbatim>\<open>write_to_csv\<close>, each with its path, its
  schema and its row; a resumed run goes on from the files the run before it left.
\<close>

fun write_all :: "(string \<times> string list \<times> dict) list \<Rightarrow> fs \<Rightarrow> fs" where
  "write_all [] files = files"
| "write_all ((filepath, headers, row_data) # calls) files =
     write_all calls (snd (write_to_csv files filepath headers row_data))"

section \<open>Fixtures\<close>

text \<open>
  A settled page on which no query finds an element: every count is 0 and reading the
  text of an element times out.
\<close>

definition blank_view :: view where
  "blank_view =
     \<lparr>v_goto = Inr (), v_settle = Inr (), v_count = (\<lambda>l. Inr 0),
      v_inner_text = (\<lambda>l. Inl TimeoutError), v_close = Inr ()\<rparr>"

text \<open>A context that opens views and shows the same page behind every URL.\<close>

definition one_site :: "view \<Rightarrow> browser_context" where
  "one_site page = \<lparr>new_page = Inr (), site = (\<lambda>url. page)\<rparr>"

text \<open>A page whose navigation times out.\<close>

definition unreachable :: view where
  "unreachable = blank_view\<lparr>v_goto := Inl TimeoutError\<rparr>"

text \<open>
  The controls of a page, each with its tag and the text it shows, and the meaning of the
  selector of the apply button on them. \<^verbatim>\<open>tag:has-text('t')\<close> matches an element
  of that tag whose text contains \<open>t\<close>, letter case ignored; the selector is a list of
  three such alternatives.
\<close>

record control =
  c_tag :: string
  c_label :: string

definition has_text :: "string \<Rightarrow> control \<Rightarrow> bool" where
  "has_text t c = py_in (lower t) (lower (c_label c))"

definition apply_button_matches :: "control \<Rightarrow> bool" where
  "apply_button_matches c =
     ((c_tag c = ''button'' \<and> has_text ''Apply Now'' c) \<or>
      (c_tag c = ''a'' \<and> has_text ''Apply Now'' c) \<or>
      (c_tag c = ''button'' \<and> has_text ''Login to Apply'' c))"

text \<open>A page with the controls \<open>cs\<close>: the driver counts the matches of the selector.\<close>

definition with_controls :: "control list \<Rightarrow> view \<Rightarrow> view" where
  "with_controls cs page =
     page\<lparr>v_count := (\<lambda>l. if l = Loc APPLY_BUTTON
                            then Inr (length (filter apply_button_matches cs))
                            else v_count page l)\<rparr>"

text \<open>
  The control the specification names: a button or a link whose label is
  "Apply Now" or "Login to Apply".
\<close>

definition actionable_apply_control :: "control \<Rightarrow> bool" where
  "actionable_apply_control c =
     ((c_tag c = ''button'' \<or> c_tag c = ''a'') \<and>
      (has_text ''Apply Now'' c \<or> has_text ''Login to Apply'' c))"

text \<open>
  A page with one element whose text contains the label \<open>pattern\<close>, in a container whose
  text is \<open>full_text\<close>.
\<close>

definition labelled :: "string \<Rightarrow> string \<Rightarrow> view \<Rightarrow> view" where
  "labelled pattern full_text page =
     page\<lparr>v_count := (\<lambda>l. if l = Loc (label_xpath pattern) \<or> l = Last (Loc (label_xpath pattern))
                            then Inr 1 else v_count page l),
          v_inner_text := (\<lambda>l. if l = Sub (Last (Loc (label_xpath pattern))) ''xpath=..''
                                 then Inr full_text else v_inner_text page l)\<rparr>"

text \<open>A page on which the last element with the label \<open>pattern\<close> has a next sibling with the text \<open>t\<close>.\<close>

definition with_sibling :: "string \<Rightarrow> string \<Rightarrow> view \<Rightarrow> view" where
  "with_sibling pattern t page =
     page\<lparr>v_count := (\<lambda>l. if l = Sub (Last (Loc (label_xpath pattern)))
                                   ''xpath=following-sibling::*[1]''
                            then Inr 1 else v_count page l),
          v_inner_text := (\<lambda>l. if l = Sub (Last (Loc (label_xpath pattern)))
                                        ''xpath=following-sibling::*[1]''
                                 then Inr t else v_inner_text page l)\<rparr>"

text \<open>
  The stripping of the label as the specification words it: the label token and a colon
  that trails it are removed, and nothing else.
\<close>

definition strip_label_and_trailing_colon :: "string \<Rightarrow> string \<Rightarrow> string" where
  "strip_label_and_trailing_colon pattern full_text =
     py_replace pattern [] (py_replace (pattern @ '':'') [] full_text)"

text \<open>
  A page with a banner of two lines, a ministry and a department, and nothing else.
\<close>

definition health_view :: view where
  "health_view =
     blank_view\<lparr>v_count := (\<lambda>l. if l = Loc BANNER then Inr 1 else Inr 0),
                v_inner_text := (\<lambda>l. if l = Loc BANNER \<or> l = First (Loc BANNER)
                                       then Inr (''Ministry of Health'' @ [CHR 0x0A]
                                                 @ ''Department of Health Research'')
                                       else Inl TimeoutError)\<rparr>"

text \<open>
  A simulated results sequence: a list of pages, each with the links of its cards
  (\<open>None\<close> for a card whose anchor has no \<^verbatim>\<open>href\<close>), its "next" pagination
  control, the outcome of a click on the anchor or button of that control, and the
  outcome of the wait for the response of status 200 that serves the page after such a
  click. The control is absent, or present with its \<^verbatim>\<open>class\<close> attribute and with or
  without the anchor or button that is clicked. The state of the browser is the index of
  the page shown; a click that succeeds shows the next page. Waiting for a card,
  scrolling and pausing leave the page as it is, and a reload shows the first page. The
  links of the cards are absolute URLs, which \<^verbatim>\<open>urljoin\<close> returns as they are.
\<close>

datatype next_control = Absent | Present "string option" bool

record sim_page =
  sp_cards :: "string option list"
  sp_next :: next_control
  sp_click :: "exn + unit"
  sp_response :: "exn + unit"

definition page_at :: "sim_page list \<Rightarrow> nat \<Rightarrow> sim_page" where
  "page_at ps w =
     (if w < length ps then ps ! w
      else \<lparr>sp_cards = [], sp_next = Absent, sp_click = Inl TimeoutError,
             sp_response = Inl TimeoutError\<rparr>)"

fun card_index :: "locator \<Rightarrow> nat option" where
  "card_index (First (Sub (Nth (Loc s) i) t)) = (if s = CARDS \<and> t = ''a'' then Some i else None)"
| "card_index l = None"

definition sim_count :: "sim_page \<Rightarrow> locator \<Rightarrow> exn + nat" where
  "sim_count pg l =
     (if l = Loc CARDS then Inr (length (sp_cards pg))
      else if l = Loc NEXT_LI
      then Inr (case sp_next pg of Absent \<Rightarrow> 0 | Present cls button \<Rightarrow> 1)
      else if l = First (Sub (Loc NEXT_LI) ''a, button'')
      then Inr (case sp_next pg of Absent \<Rightarrow> 0 | Present cls button \<Rightarrow> if button then 1 else 0)
      else Inr 0)"

definition sim_get_attribute :: "sim_page \<Rightarrow> locator \<Rightarrow> string \<Rightarrow> exn + string option" where
  "sim_get_attribute pg l a =
     (if l = Loc NEXT_LI \<and> a = ''class''
      then (case sp_next pg of Absent \<Rightarrow> Inl TimeoutError | Present cls button \<Rightarrow> Inr cls)
      else (case card_index l of
              None \<Rightarrow> Inl TimeoutError
            | Some i \<Rightarrow>
                if a = ''href'' \<and> i < length (sp_cards pg) then Inr (sp_cards pg ! i)
                else Inl TimeoutError))"

definition sim_click :: "sim_page \<Rightarrow> nat \<Rightarrow> locator \<Rightarrow> (exn + unit) \<times> nat" where
  "sim_click pg w l =
     (if l = First (Sub (Loc NEXT_LI) ''a, button'') \<and>
         (case sp_next pg of Absent \<Rightarrow> False | Present cls button \<Rightarrow> button)
      then (case sp_click pg of Inl e \<Rightarrow> (Inl e, w) | Inr u \<Rightarrow> (Inr (), w + 1))
      else (Inl TimeoutError, w))"

definition paged_driver :: "browser_context \<Rightarrow> sim_page list \<Rightarrow> nat driver" where
  "paged_driver ctx ps =
     \<lparr>d_count = (\<lambda>w l. sim_count (page_at ps w) l),
      d_inner_text = (\<lambda>w l. Inl TimeoutError),
      d_get_attribute = (\<lambda>w l a. sim_get_attribute (page_at ps w) l a),
      d_wait_for_selector =
        (\<lambda>w s. if s = CARDS \<and> sp_cards (page_at ps w) \<noteq> [] then (Inr (), w)
                else (Inl TimeoutError, w)),
      d_scroll_into_view = (\<lambda>w l. (Inr (), w)),
      d_click = (\<lambda>w l. sim_click (page_at ps w) w l),
      d_expect_response = (\<lambda>w. (sp_response (page_at ps w), w)),
      d_reload = (\<lambda>w. (Inr (), 0)),
      d_sleep = (\<lambda>w n. w),
      d_context = (\<lambda>w. ctx),
      d_urljoin = (\<lambda>base href. href)\<rparr>"

text \<open>
  The "next" control of a page that ends the sequence: absent, or carrying the disabled
  marker. The control of a page that does not: present and without the marker.
\<close>

definition disabled_marker :: "string option \<Rightarrow> bool" where
  "disabled_marker cls =
     py_in ''ant-pagination-disabled'' (case cls of None \<Rightarrow> [] | Some c \<Rightarrow> c)"

fun absent_or_disabled :: "next_control \<Rightarrow> bool" where
  "absent_or_disabled Absent = True"
| "absent_or_disabled (Present cls button) = disabled_marker cls"

fun present_and_enabled :: "next_control \<Rightarrow> bool" where
  "present_and_enabled Absent = False"
| "present_and_enabled (Present cls button) = (\<not> disabled_marker cls)"

fun has_button :: "next_control \<Rightarrow> bool" where
  "has_button Absent = False"
| "has_button (Present cls button) = button"

section \<open>A driver that serves a sequence of pages\<close>

text \<open>
  What the walk asks of the "next" pagination control in a state of the browser. The
  control is absent or disabled when the count of \<^verbatim>\<open>li.ant-pagination-next\<close> is 0
  or its \<^verbatim>\<open>class\<close> carries the disabled marker; it is present and enabled when
  the count is positive and the \<^verbatim>\<open>class\<close> is without the marker; it can be clicked
  when it has an anchor or button inside it and the click on that succeeds.
\<close>

definition NEXT_BUTTON :: locator where
  "NEXT_BUTTON = First (Sub (Loc NEXT_LI) ''a, button'')"

definition next_absent_or_disabled :: "'w driver \<Rightarrow> 'w \<Rightarrow> bool" where
  "next_absent_or_disabled d w =
     (case d_count d w (Loc NEXT_LI) of
        Inl e \<Rightarrow> False
      | Inr n \<Rightarrow>
          n = 0 \<or>
          (case d_get_attribute d w (Loc NEXT_LI) ''class'' of
             Inl e \<Rightarrow> False
           | Inr cls \<Rightarrow> disabled_marker cls))"

definition next_present_and_enabled :: "'w driver \<Rightarrow> 'w \<Rightarrow> bool" where
  "next_present_and_enabled d w =
     (case d_count d w (Loc NEXT_LI) of
        Inl e \<Rightarrow> False
      | Inr n \<Rightarrow>
          0 < n \<and>
          (case d_get_attribute d w (Loc NEXT_LI) ''class'' of
             Inl e \<Rightarrow> False
           | Inr cls \<Rightarrow> \<not> disabled_marker cls))"

definition next_can_be_clicked :: "'w driver \<Rightarrow> 'w \<Rightarrow> bool" where
  "next_can_be_clicked d w =
     ((case d_count d w NEXT_BUTTON of Inl e \<Rightarrow> False | Inr m \<Rightarrow> 0 < m) \<and>
      fst (d_click d w NEXT_BUTTON) = Inr ())"

section \<open>The lines a walk appends\<close>

definition outcome_of :: "'w walk \<Rightarrow> (exn + unit) option" where
  "outcome_of r = fst r"

definition pages_of :: "'w walk \<Rightarrow> nat" where
  "pages_of r = fst (snd r)"

definition world_of :: "'w walk \<Rightarrow> 'w" where
  "world_of r = fst (snd (snd r))"

definition files_of :: "'w walk \<Rightarrow> fs" where
  "files_of r = snd (snd (snd r))"

text \<open>
  The lines the loop over the cards can append, for an extraction function, a driver, a
  schema and a map of forced fields: the header of the schema, or the row of a record
  that the extraction function has returned for the link of a card, overlaid with the
  forced fields, with \<open>N/A\<close> for a column the record has no value for.
\<close>

definition emitted ::
  "(browser_context \<Rightarrow> string \<Rightarrow> exn + dict) \<Rightarrow> 'w driver \<Rightarrow> string list \<Rightarrow> dict \<Rightarrow> line \<Rightarrow> bool"
  where
  "emitted extract d headers extra_fields_map l =
     (l = Header headers \<or>
      (\<exists>w i href row_data.
         d_get_attribute d w (First (Sub (Nth (Loc CARDS) i) ''a'')) ''href'' = Inr (Some href) \<and>
         extract (d_context d w) (d_urljoin d BASE_URL href) = Inr row_data \<and>
         l = Row (map (\<lambda>k. (k, dict_get (overlay extra_fields_map row_data) k ''N/A''))
                    headers)))"

definition grows ::
  "(browser_context \<Rightarrow> string \<Rightarrow> exn + dict) \<Rightarrow> 'w driver \<Rightarrow> string list \<Rightarrow> dict \<Rightarrow> string \<Rightarrow>
   fs \<Rightarrow> fs \<Rightarrow> bool" where
  "grows extract d headers extra_fields_map csv_path files files1 =
     (\<exists>added. content files1 csv_path = content files csv_path @ added \<and>
              list_all (emitted extract d headers extra_fields_map) added)"

section \<open>A simulated view with filter groups\<close>

text \<open>
  A results view with filter groups, each with the text of its header and the labels of
  its options, and one page of results that is the same under every filter. The container
  of group \<open>g\<close> is found from the header of the group or as the \<open>g\<close>-th container of the
  page. The toggles listed in \<open>stuck\<close>, each given by its group and its place in the
  group, cannot be clicked; every other toggle can. The state of the browser is the
  number of reloads so far.
\<close>

record filter_group =
  fg_title :: string
  fg_options :: "string list"

fun header_index :: "locator \<Rightarrow> nat option" where
  "header_index (Nth (Loc s) g) = (if s = FILTER_HEADERS then Some g else None)"
| "header_index l = None"

fun block_group :: "locator \<Rightarrow> nat option" where
  "block_group (Sub (Nth (Loc s) g) a) =
     (if s = FILTER_HEADERS \<and> a = ANCESTOR then Some g else None)"
| "block_group (Nth (Loc s) g) = (if s = FILTER_TYPE then Some g else None)"
| "block_group l = None"

fun options_of :: "locator \<Rightarrow> nat option" where
  "options_of (Sub block s) = (if s = CHECKBOXES then block_group block else None)"
| "options_of l = None"

fun option_of :: "locator \<Rightarrow> (nat \<times> nat) option" where
  "option_of (Nth l i) = (case options_of l of None \<Rightarrow> None | Some g \<Rightarrow> Some (g, i))"
| "option_of l = None"

definition group_options :: "filter_group list \<Rightarrow> nat \<Rightarrow> string list" where
  "group_options groups g = (if g < length groups then fg_options (groups ! g) else [])"

definition filter_driver ::
  "filter_group list \<Rightarrow> (nat \<times> nat) list \<Rightarrow> browser_context \<Rightarrow> sim_page \<Rightarrow> nat driver" where
  "filter_driver groups stuck ctx pg =
     \<lparr>d_count =
        (\<lambda>w l. if l = Loc FILTER_HEADERS then Inr (length groups)
                else (case options_of l of
                        Some g \<Rightarrow> Inr (length (group_options groups g))
                      | None \<Rightarrow> sim_count pg l)),
      d_inner_text =
        (\<lambda>w l. case header_index l of
                  Some g \<Rightarrow>
                    if g < length groups then Inr (fg_title (groups ! g)) else Inl TimeoutError
                | None \<Rightarrow>
                    (case option_of l of
                       Some (g, i) \<Rightarrow>
                         if i < length (group_options groups g)
                         then Inr (group_options groups g ! i) else Inl TimeoutError
                     | None \<Rightarrow> Inl TimeoutError)),
      d_get_attribute = (\<lambda>w l a. sim_get_attribute pg l a),
      d_wait_for_selector = (\<lambda>w s. (Inr (), w)),
      d_scroll_into_view = (\<lambda>w l. (Inr (), w)),
      d_click =
        (\<lambda>w l. case option_of l of
                  Some gi \<Rightarrow> if gi \<in> set stuck then (Inl TimeoutError, w) else (Inr (), w)
                | None \<Rightarrow> (Inl TimeoutError, w)),
      d_expect_response = (\<lambda>w. (Inr (), w)),
      d_reload = (\<lambda>w. (Inr (), w + 1)),
      d_sleep = (\<lambda>w n. w),
      d_context = (\<lambda>w. ctx),
      d_urljoin = (\<lambda>base href. href)\<rparr>"

text \<open>
  The catalogue with its two groups, the Ministries first and the Departments second, in
  which the toggle of the first ministry cannot be clicked.
\<close>

definition catalogue :: "nat driver" where
  "catalogue =
     filter_driver
       [\<lparr>fg_title = ''Ministries'',
          fg_options = [''Ministry of Finance (42)'', ''Ministry of Health (7)'']\<rparr>,
        \<lparr>fg_title = ''Departments'',
          fg_options = [''Department of Revenue (3)'', ''Department of Health Research (5)'']\<rparr>]
       [(0, 0)] (one_site blank_view)
       \<lparr>sp_cards = [Some ''https://www.nsws.gov.in/a''], sp_next = Absent, sp_click = Inr (), sp_response = Inr ()\<rparr>"

section \<open>Properties: text normalisation\<close>

text \<open>
  C2. The claim: for every input string \<^verbatim>\<open>clean_text\<close> returns \<open>N/A\<close> or a
  non-empty normalised string, never the empty string. The code tests for emptiness
  before it removes tags and whitespace: a string of whitespace only, or of one tag only,
  is not empty, and its normal form is the empty string, which is what the function
  returns.
\<close>

theorem clean_text_returns_empty:
  "clean_text '' '' = [] \<and> clean_text ''<br>'' = [] \<and> clean_text [] = ''N/A''"
  by (simp add: clean_text_def py_strip_def isspace_def)

section \<open>Properties: the output sink\<close>

lemma content_write_to_csv:
  "content (snd (write_to_csv files p hs row)) q =
     (if q = p
      then content files p @ (if files p = None then [Header hs] else [])
             @ (if list_ex (\<lambda>k. k \<notin> set hs) (dict_keys row) then []
                else [Row (map (\<lambda>k. (k, dict_get row k [])) hs)])
      else content files q)"
  by (simp add: write_to_csv_def content_def Let_def)

lemma exists_write_to_csv: "snd (write_to_csv files p hs row) p \<noteq> None"
  by (simp add: write_to_csv_def Let_def)

lemma exists_write_to_csv_other:
  "files q \<noteq> None \<Longrightarrow> snd (write_to_csv files p hs row) q \<noteq> None"
  by (simp add: write_to_csv_def Let_def)

lemma write_all_existing:
  "files p \<noteq> None \<Longrightarrow>
     \<exists>added. content (write_all calls files) p = content files p @ added \<and> header_rows added = 0"
proof (induction calls arbitrary: files)
  case Nil
  then show ?case by (simp add: header_rows_def)
next
  case (Cons c calls)
  obtain q hs row where c: "c = (q, hs, row)" by (cases c) auto
  let ?files = "snd (write_to_csv files q hs row)"
  have ex: "?files p \<noteq> None" using Cons.prems by (rule exists_write_to_csv_other)
  from Cons.IH [of ?files, OF ex] obtain added where
    a: "content (write_all calls ?files) p = content ?files p @ added" "header_rows added = 0"
    by blast
  have "\<exists>one. content ?files p = content files p @ one \<and> header_rows one = 0"
    using Cons.prems by (auto simp add: content_write_to_csv header_rows_def)
  then obtain one where o: "content ?files p = content files p @ one" "header_rows one = 0"
    by blast
  have "content (write_all (c # calls) files) p = content files p @ (one @ added)"
    using a o c by simp
  moreover have "header_rows (one @ added) = 0"
    using a o by (simp add: header_rows_def)
  ultimately show ?case by blast
qed

text \<open>
  C7. Over any sequence of calls of \<^verbatim>\<open>write_to_csv\<close>, on any files and for every
  path, the content the file had is kept and extended at its end, at most one header row
  is among the added lines, and none is when the file existed before the first call.
\<close>

theorem write_to_csv_header_at_most_once:
  "\<exists>added. content (write_all calls files) p = content files p @ added \<and>
           header_rows added \<le> 1 \<and> (files p \<noteq> None \<longrightarrow> header_rows added = 0)"
proof (induction calls arbitrary: files)
  case Nil
  then show ?case by (simp add: header_rows_def)
next
  case (Cons c calls)
  obtain q hs row where c: "c = (q, hs, row)" by (cases c) auto
  let ?files = "snd (write_to_csv files q hs row)"
  show ?case
  proof (cases "files p \<noteq> None")
    case True
    from write_all_existing [of files p "c # calls", OF True] show ?thesis by auto
  next
    case absent: False
    show ?thesis
    proof (cases "q = p")
      case True
      have ex: "?files p \<noteq> None" unfolding True by (rule exists_write_to_csv)
      from write_all_existing [of ?files p calls, OF ex] obtain added where
        a: "content (write_all calls ?files) p = content ?files p @ added" "header_rows added = 0"
        by blast
      have "\<exists>one. content ?files p = content files p @ one \<and> header_rows one \<le> 1"
        using True by (simp add: content_write_to_csv header_rows_def)
      then obtain one where o: "content ?files p = content files p @ one" "header_rows one \<le> 1"
        by blast
      have "content (write_all (c # calls) files) p = content files p @ (one @ added)"
        using a o c by simp
      moreover have "header_rows (one @ added) \<le> 1"
        using a o by (simp add: header_rows_def)
      ultimately show ?thesis using absent by blast
    next
      case False
      from Cons.IH [of ?files] obtain added where
        a: "content (write_all calls ?files) p = content ?files p @ added" "header_rows added \<le> 1"
        by blast
      have "content ?files p = content files p"
        using False by (simp add: content_write_to_csv)
      then have "content (write_all (c # calls) files) p = content files p @ added"
        using a c by simp
      then show ?thesis using a absent by blast
    qed
  qed
qed

theorem write_to_csv_header_at_most_once_witness:
  "(Map.empty(''Ministries.csv'' \<mapsto> [Header [''Approval Link''], Row [(''Approval Link'', ''u1'')]]))
      ''Ministries.csv'' \<noteq> None \<and>
   (\<exists>added.
      content (write_all [(''Ministries.csv'', [''Approval Link''], [(''Approval Link'', ''u2'')]),
                          (''Ministries.csv'', [''Approval Link''], [(''Approval Link'', ''u3'')])]
                 (Map.empty(''Ministries.csv'' \<mapsto>
                    [Header [''Approval Link''], Row [(''Approval Link'', ''u1'')]])))
        ''Ministries.csv''
      = [Header [''Approval Link''], Row [(''Approval Link'', ''u1'')]] @ added \<and>
      header_rows added = 0)"
proof -
  let ?files = "Map.empty(''Ministries.csv'' \<mapsto>
                  [Header [''Approval Link''], Row [(''Approval Link'', ''u1'')]])"
  let ?calls = "[(''Ministries.csv'', [''Approval Link''], [(''Approval Link'', ''u2'')]),
                 (''Ministries.csv'', [''Approval Link''], [(''Approval Link'', ''u3'')])]"
  have ex: "?files ''Ministries.csv'' \<noteq> None" by simp
  from write_to_csv_header_at_most_once [of ?calls ?files "''Ministries.csv''"] ex
  obtain added where
    "content (write_all ?calls ?files) ''Ministries.csv''
       = content ?files ''Ministries.csv'' @ added" "header_rows added = 0"
    by blast
  then have "content (write_all ?calls ?files) ''Ministries.csv''
       = [Header [''Approval Link''], Row [(''Approval Link'', ''u1'')]] @ added \<and>
       header_rows added = 0"
    by (simp add: content_def)
  then show ?thesis using ex by blast
qed

section \<open>Properties: the detail fetcher\<close>

lemma map_of_dict_set: "map_of (dict_set k v d) = (map_of d)(k \<mapsto> v)"
  by (induction d) (auto simp: fun_eq_iff)

lemma dict_keys_map_of: "k \<in> set (dict_keys d) \<longleftrightarrow> map_of d k \<noteq> None"
  by (induction d) (auto simp: dict_keys_def)

lemma map_of_fill_keys:
  "map_of (foldl (\<lambda>d k. if k \<notin> set (dict_keys d) then dict_set k v d else d) data ks) k =
     (if k \<in> set ks then Some (dict_get data k v) else map_of data k)"
proof (induction ks arbitrary: data)
  case Nil
  then show ?case by simp
next
  case (Cons a ks)
  let ?f = "\<lambda>d k. if k \<notin> set (dict_keys d) then dict_set k v d else d"
  have "map_of (foldl ?f data (a # ks)) k = map_of (foldl ?f (?f data a) ks) k"
    by simp
  also have "\<dots> = (if k \<in> set ks then Some (dict_get (?f data a) k v)
                     else map_of (?f data a) k)"
    by (rule Cons.IH)
  also have "\<dots> = (if k \<in> set (a # ks) then Some (dict_get data k v) else map_of data k)"
    by (auto simp: dict_keys_map_of map_of_dict_set dict_get_def split: option.splits)
  finally show ?case .
qed

lemma map_of_fill_error:
  "map_of (fill_error data) k =
     (if k \<in> set ALL_HEADERS then Some (dict_get data k ''Error'') else map_of data k)"
  unfolding fill_error_def by (rule map_of_fill_keys)

lemma fetch_returns:
  "new_page ctx = Inr () \<Longrightarrow> v_close (site ctx url) = Inr () \<Longrightarrow>
     fetch steps ctx url =
       Inr (case run_steps (steps (site ctx url) url) [] of
              Inl (e, d) \<Rightarrow> fill_error d | Inr d \<Rightarrow> d)"
  by (simp add: fetch_def Let_def)

lemma goto_fails:
  "v_goto page = Inl e \<Longrightarrow> run_steps (detail_steps page url) [] = Inl (e, [])"
  by (simp add: detail_steps_def effect_def)

lemma goto_fails2:
  "v_goto page = Inl e \<Longrightarrow> run_steps (detail_steps2 page url) [] = Inl (e, [])"
  by (simp add: detail_steps2_def effect_def)

lemma fetch_failure:
  assumes "new_page ctx = Inr ()" and "v_close (site ctx url) = Inr ()"
  shows "\<exists>r. fetch steps ctx url = Inr r \<and>
           (\<forall>e d. run_steps (steps (site ctx url) url) [] = Inl (e, d) \<longrightarrow>
              (\<forall>k\<in>set ALL_HEADERS. map_of r k = Some (dict_get d k ''Error'')))"
  using assms by (auto simp: fetch_returns map_of_fill_error)

lemma fill_error_empty: "fill_error [] = map (\<lambda>k. (k, ''Error'')) ALL_HEADERS"
  by (simp add: fill_error_def ALL_HEADERS_def dict_keys_def)

text \<open>
  C1. The waits that follow the navigation are inside \<^verbatim>\<open>try: ... except: pass\<close> in
  both source files, so the navigation is the one statement of navigating and waiting
  whose failure reaches the handler. When the view has been opened, the navigation
  raises and the view closes, \<^verbatim>\<open>extract_detail_page\<close> raises nothing and returns the
  record that has the fields of the output schema and no other, every one of them set to
  \<open>Error\<close>: for every context, every URL, every exception and every outcome of the wait.
  The same holds in both source files.
\<close>

theorem extract_detail_page_navigation_failure:
  assumes "new_page ctx = Inr ()" and "v_close (site ctx url) = Inr ()"
    and "v_goto (site ctx url) = Inl e"
  shows "extract_detail_page ctx url = Inr (map (\<lambda>k. (k, ''Error'')) ALL_HEADERS) \<and>
         extract_detail_page2 ctx url = Inr (map (\<lambda>k. (k, ''Error'')) ALL_HEADERS)"
  using assms
  by (simp add: extract_detail_page_def extract_detail_page2_def fetch_returns
      goto_fails goto_fails2 fill_error_empty)

theorem extract_detail_page_navigation_failure_witness:
  "new_page (one_site unreachable) = Inr () \<and>
   v_close (site (one_site unreachable) ''https://www.nsws.gov.in/a'') = Inr () \<and>
   v_goto (site (one_site unreachable) ''https://www.nsws.gov.in/a'') = Inl TimeoutError \<and>
   extract_detail_page (one_site unreachable) ''https://www.nsws.gov.in/a'' =
     Inr [(''Approval Link'', ''Error''), (''Approval Name'', ''Error''),
          (''Ministry Name'', ''Error''), (''Department Name'', ''Error''),
          (''About this approval'', ''Error''), (''Who can apply'', ''Error''),
          (''Documents required'', ''Error''), (''Approval applicability/trigger'', ''Error''),
          (''Application Fee'', ''Error''), (''Validity'', ''Error''),
          (''Average Time taken to get this'', ''Error''),
          (''Can be applied through NSWS'', ''Error'')] \<and>
   extract_detail_page2 (one_site unreachable) ''https://www.nsws.gov.in/a'' =
     Inr [(''Approval Link'', ''Error''), (''Approval Name'', ''Error''),
          (''Ministry Name'', ''Error''), (''Department Name'', ''Error''),
          (''About this approval'', ''Error''), (''Who can apply'', ''Error''),
          (''Documents required'', ''Error''), (''Approval applicability/trigger'', ''Error''),
          (''Application Fee'', ''Error''), (''Validity'', ''Error''),
          (''Average Time taken to get this'', ''Error''),
          (''Can be applied through NSWS'', ''Error'')]"
proof -
  let ?ctx = "one_site unreachable" and ?url = "''https://www.nsws.gov.in/a''"
  have a: "new_page ?ctx = Inr ()" and b: "v_close (site ?ctx ?url) = Inr ()"
    and c: "v_goto (site ?ctx ?url) = Inl TimeoutError"
    by (simp_all add: one_site_def unreachable_def blank_view_def)
  from extract_detail_page_navigation_failure [OF a b c] show ?thesis
    using a b c by (simp add: ALL_HEADERS_def)
qed

lemma run_steps_append:
  "run_steps (ss @ ts) data =
     (case run_steps ss data of Inl x \<Rightarrow> Inl x | Inr data1 \<Rightarrow> run_steps ts data1)"
  by (induction ss arbitrary: data) (auto split: sum.splits)

lemma run_steps_last_assign:
  assumes "run_steps (ss @ [assign k r]) data = Inr d"
  shows "\<exists>value. r = Inr value \<and> map_of d k = Some value"
proof (cases "run_steps ss data")
  case (Inl x)
  with assms show ?thesis by (simp add: run_steps_append)
next
  case (Inr data1)
  with assms show ?thesis
    by (cases r) (auto simp: run_steps_append assign_def map_of_dict_set)
qed

lemma detail_steps_last:
  "detail_steps page url =
     butlast (detail_steps page url)
       @ [assign ''Can be applied through NSWS'' (applicability page)]"
  by (simp add: detail_steps_def)

lemma detail_steps2_last:
  "detail_steps2 page url =
     butlast (detail_steps2 page url)
       @ [assign ''Can be applied through NSWS'' (applicability page)]"
  by (simp add: detail_steps2_def)

lemma applicability_with_controls:
  "applicability (with_controls cs page) =
     Inr (if \<exists>c\<in>set cs. apply_button_matches c then ''Yes'' else ''No (Information Only)'')"
  by (auto simp: applicability_def with_controls_def filter_empty_conv)

lemma fetch_applicability:
  assumes "new_page ctx = Inr ()" and "v_close (site ctx url) = Inr ()"
    and "site ctx url = with_controls cs page"
    and last: "\<And>pg. steps pg url = butlast (steps pg url)
                 @ [assign ''Can be applied through NSWS'' (applicability pg)]"
    and "\<not> isl (run_steps (steps (site ctx url) url) [])"
  shows "\<exists>r. fetch steps ctx url = Inr r \<and>
           map_of r ''Can be applied through NSWS'' =
             Some (if \<exists>c\<in>set cs. apply_button_matches c then ''Yes''
                   else ''No (Information Only)'')"
proof -
  from assms(5) obtain d where d: "run_steps (steps (site ctx url) url) [] = Inr d"
    by (cases "run_steps (steps (site ctx url) url) []") auto
  then have "run_steps (butlast (steps (site ctx url) url)
       @ [assign ''Can be applied through NSWS'' (applicability (site ctx url))]) [] = Inr d"
    using last [of "site ctx url"] by simp
  from run_steps_last_assign [OF this] obtain v where
    "applicability (site ctx url) = Inr v"
    "map_of d ''Can be applied through NSWS'' = Some v"
    by blast
  then have "map_of d ''Can be applied through NSWS'' =
      Some (if \<exists>c\<in>set cs. apply_button_matches c then ''Yes'' else ''No (Information Only)'')"
    using assms(3) by (simp add: applicability_with_controls)
  moreover have "fetch steps ctx url = Inr d"
    using assms(1,2) d by (simp add: fetch_returns)
  ultimately show ?thesis by blast
qed

text \<open>
  C5, as amended. When no statement of the fetch raises, the applicability field of the
  record is \<open>Yes\<close> if and only if the page has a button whose text contains "Apply Now",
  a link whose text contains "Apply Now", or a button whose text contains
  "Login to Apply", and it is \<open>No (Information Only)\<close> otherwise. The same holds in both
  source files.
\<close>

theorem applicability_field:
  assumes "new_page ctx = Inr ()" and "v_close (site ctx url) = Inr ()"
    and "site ctx url = with_controls cs page"
  shows "(\<not> isl (run_steps (detail_steps (site ctx url) url) []) \<longrightarrow>
            (\<exists>r. extract_detail_page ctx url = Inr r \<and>
               map_of r ''Can be applied through NSWS'' =
                 Some (if \<exists>c\<in>set cs. apply_button_matches c then ''Yes''
                       else ''No (Information Only)''))) \<and>
         (\<not> isl (run_steps (detail_steps2 (site ctx url) url) []) \<longrightarrow>
            (\<exists>r. extract_detail_page2 ctx url = Inr r \<and>
               map_of r ''Can be applied through NSWS'' =
                 Some (if \<exists>c\<in>set cs. apply_button_matches c then ''Yes''
                       else ''No (Information Only)'')))"
  unfolding extract_detail_page_def extract_detail_page2_def
  using fetch_applicability [OF assms, of detail_steps, OF detail_steps_last]
    fetch_applicability [OF assms, of detail_steps2, OF detail_steps2_last]
  by blast

lemma blank_steps_complete:
  "\<not> isl (run_steps (detail_steps (with_controls cs blank_view) url) [])"
  "\<not> isl (run_steps (detail_steps2 (with_controls cs blank_view) url) [])"
  by (simp_all add: detail_steps_def detail_steps2_def with_controls_def blank_view_def
      effect_def ignored_def assign_def heading_text_def banner_step_def banner_step2_def
      safe_extract_text_def applicability_def APPLY_BUTTON_def BANNER_def quote_def
      section_xpath_def label_xpath_def Let_def)

theorem applicability_field_witness:
  "new_page (one_site (with_controls [\<lparr>c_tag = ''button'', c_label = ''Apply Now''\<rparr>] blank_view))
     = Inr () \<and>
   \<not> isl (run_steps (detail_steps
       (with_controls [\<lparr>c_tag = ''button'', c_label = ''Apply Now''\<rparr>] blank_view) ''u'') []) \<and>
   \<not> isl (run_steps (detail_steps2
       (with_controls [\<lparr>c_tag = ''button'', c_label = ''Apply Now''\<rparr>] blank_view) ''u'') []) \<and>
   (\<exists>r. extract_detail_page
          (one_site (with_controls [\<lparr>c_tag = ''button'', c_label = ''Apply Now''\<rparr>] blank_view))
          ''u'' = Inr r \<and>
        map_of r ''Can be applied through NSWS'' = Some ''Yes'') \<and>
   (\<exists>r. extract_detail_page2
          (one_site (with_controls [\<lparr>c_tag = ''button'', c_label = ''Apply Now''\<rparr>] blank_view))
          ''u'' = Inr r \<and>
        map_of r ''Can be applied through NSWS'' = Some ''Yes'')"
proof -
  let ?cs = "[\<lparr>c_tag = ''button'', c_label = ''Apply Now''\<rparr>]"
  let ?ctx = "one_site (with_controls ?cs blank_view)"
  have a: "new_page ?ctx = Inr ()" and b: "v_close (site ?ctx ''u'') = Inr ()"
    and c: "site ?ctx ''u'' = with_controls ?cs blank_view"
    by (simp_all add: one_site_def with_controls_def blank_view_def)
  have m: "(\<exists>c\<in>set ?cs. apply_button_matches c) = True"
    by (simp add: apply_button_matches_def has_text_def lower_def lower_char_def capitals_def small_letters_def)
  note n = blank_steps_complete [of ?cs "''u''"]
  from applicability_field [OF a b c] n show ?thesis
    unfolding c m using a by simp
qed

text \<open>
  C5 as stated fails: a page whose only control is a link labelled "Login to Apply" has
  an actionable control with one of the two labels, and its record says
  \<open>No (Information Only)\<close>. The selector has no alternative for a link with that label.
\<close>

theorem login_link_is_not_counted:
  "actionable_apply_control \<lparr>c_tag = ''a'', c_label = ''Login to Apply''\<rparr> \<and>
   extract_detail_page
     (one_site (with_controls [\<lparr>c_tag = ''a'', c_label = ''Login to Apply''\<rparr>] blank_view))
     ''https://www.nsws.gov.in/a'' =
     Inr [(''Approval Link'', ''https://www.nsws.gov.in/a''), (''Approval Name'', ''N/A''),
          (''Ministry Name'', ''N/A''), (''Department Name'', ''N/A''),
          (''About this approval'', ''N/A''), (''Who can apply'', ''N/A''),
          (''Documents required'', ''N/A''), (''Approval applicability/trigger'', ''N/A''),
          (''Application Fee'', ''N/A''), (''Validity'', ''N/A''),
          (''Average Time taken to get this'', ''N/A''),
          (''Can be applied through NSWS'', ''No (Information Only)'')] \<and>
   extract_detail_page2
     (one_site (with_controls [\<lparr>c_tag = ''a'', c_label = ''Login to Apply''\<rparr>] blank_view))
     ''https://www.nsws.gov.in/a'' =
     Inr [(''Approval Link'', ''https://www.nsws.gov.in/a''), (''Approval Name'', ''N/A''),
          (''Ministry Name'', ''N/A''), (''Department Name'', ''N/A''),
          (''About this approval'', ''N/A''), (''Who can apply'', ''N/A''),
          (''Documents required'', ''N/A''), (''Approval applicability/trigger'', ''N/A''),
          (''Application Fee'', ''N/A''), (''Validity'', ''N/A''),
          (''Average Time taken to get this'', ''N/A''),
          (''Can be applied through NSWS'', ''No (Information Only)'')]"
  by (simp add: actionable_apply_control_def apply_button_matches_def has_text_def lower_def
      lower_char_def capitals_def small_letters_def extract_detail_page_def extract_detail_page2_def fetch_def one_site_def
      detail_steps_def detail_steps2_def with_controls_def blank_view_def
      effect_def ignored_def assign_def heading_text_def banner_step_def banner_step2_def
      safe_extract_text_def applicability_def APPLY_BUTTON_def BANNER_def quote_def
      section_xpath_def label_xpath_def Let_def)

section \<open>Properties: labelled values\<close>

lemma get_labeled_value2_skip:
  assumes "\<forall>q\<in>set before. v_count page (Loc (label_xpath q)) = Inr 0"
  shows "get_labeled_value2 page (before @ rest) = get_labeled_value2 page rest"
  using assms by (induction before) simp_all

lemma get_labeled_value_skip:
  assumes "\<forall>q\<in>set before. v_count page (Last (Loc (label_xpath q))) = Inr 0"
  shows "get_labeled_value page (before @ rest) = get_labeled_value page rest"
  using assms by (induction before) (simp_all add: Let_def)

lemma get_labeled_value2_match:
  assumes "v_count page (Loc (label_xpath p)) = Inr n" and "0 < n"
    and "v_inner_text page (Sub (Last (Loc (label_xpath p))) ''xpath=..'') = Inr full_text"
  shows "get_labeled_value2 page (p # after) =
           (let cleaned = clean_text (py_replace '':'' [] (py_replace p [] full_text));
                next_sib = Sub (Last (Loc (label_xpath p))) ''xpath=following-sibling::*[1]''
            in if 2 \<le> length cleaned then cleaned
               else (case v_count page next_sib of
                       Inl e \<Rightarrow> get_labeled_value2 page after
                     | Inr m \<Rightarrow>
                         if m = 0 then cleaned
                         else (case v_inner_text page next_sib of
                                 Inl e \<Rightarrow> get_labeled_value2 page after
                               | Inr t \<Rightarrow> clean_text t)))"
  using assms by (simp add: labeled_match2_def Let_def split: sum.splits)

text \<open>
  C3, as amended. The patterns are tried in order, and the first one with a match
  decides: the text of the container of its last match is read. In nsws_scraper2.py
  every occurrence of the label token and every colon are removed from that text; when
  something is left, it is normalised, a result of two characters or more is the value,
  and for a shorter one the value is the normalised text of the next sibling element of
  the match, when there is one. In nsws_scraper.py every occurrence of the label token
  is removed and the rest is normalised, with no removal of colons and no fallback.
\<close>

theorem get_labeled_value_first_match:
  assumes "v_inner_text page (Sub (Last (Loc (label_xpath p))) ''xpath=..'') = Inr full_text"
    and "0 < n"
  shows "((\<forall>q\<in>set before. v_count page (Loc (label_xpath q)) = Inr 0) \<longrightarrow>
          v_count page (Loc (label_xpath p)) = Inr n \<longrightarrow>
          py_replace '':'' [] (py_replace p [] full_text) \<noteq> [] \<longrightarrow>
          (2 \<le> length (clean_text (py_replace '':'' [] (py_replace p [] full_text))) \<longrightarrow>
             get_labeled_value2 page (before @ p # after) =
               py_strip (collapse_ws (strip_tags
                 (py_replace '':'' [] (py_replace p [] full_text))))) \<and>
          (length (clean_text (py_replace '':'' [] (py_replace p [] full_text))) < 2 \<longrightarrow>
             (\<forall>m t. v_count page (Sub (Last (Loc (label_xpath p)))
                                   ''xpath=following-sibling::*[1]'') = Inr m \<longrightarrow>
                    0 < m \<longrightarrow>
                    v_inner_text page (Sub (Last (Loc (label_xpath p)))
                                        ''xpath=following-sibling::*[1]'') = Inr t \<longrightarrow>
                    get_labeled_value2 page (before @ p # after) = clean_text t))) \<and>
         ((\<forall>q\<in>set before. v_count page (Last (Loc (label_xpath q))) = Inr 0) \<longrightarrow>
          v_count page (Last (Loc (label_xpath p))) = Inr n \<longrightarrow>
          get_labeled_value page (before @ p # after) =
            clean_text (py_replace p [] full_text))"
proof (intro conjI impI allI)
  assume b: "\<forall>q\<in>set before. v_count page (Loc (label_xpath q)) = Inr 0"
    and c: "v_count page (Loc (label_xpath p)) = Inr n"
    and left: "py_replace '':'' [] (py_replace p [] full_text) \<noteq> []"
    and long: "2 \<le> length (clean_text (py_replace '':'' [] (py_replace p [] full_text)))"
  have "get_labeled_value2 page (before @ p # after) =
          clean_text (py_replace '':'' [] (py_replace p [] full_text))"
    using get_labeled_value2_match [OF c assms(2,1), of after] long
    by (simp add: get_labeled_value2_skip [OF b] Let_def)
  then show "get_labeled_value2 page (before @ p # after) =
      py_strip (collapse_ws (strip_tags (py_replace '':'' [] (py_replace p [] full_text))))"
    using left by (simp add: clean_text_def)
next
  fix m t
  assume b: "\<forall>q\<in>set before. v_count page (Loc (label_xpath q)) = Inr 0"
    and c: "v_count page (Loc (label_xpath p)) = Inr n"
    and short: "length (clean_text (py_replace '':'' [] (py_replace p [] full_text))) < 2"
    and sib: "v_count page (Sub (Last (Loc (label_xpath p)))
                ''xpath=following-sibling::*[1]'') = Inr m" "0 < m"
       "v_inner_text page (Sub (Last (Loc (label_xpath p)))
                ''xpath=following-sibling::*[1]'') = Inr t"
  show "get_labeled_value2 page (before @ p # after) = clean_text t"
    using get_labeled_value2_match [OF c assms(2,1), of after] short sib
    by (simp add: get_labeled_value2_skip [OF b] Let_def)
next
  assume "\<forall>q\<in>set before. v_count page (Last (Loc (label_xpath q))) = Inr 0"
    and "v_count page (Last (Loc (label_xpath p))) = Inr n"
  then show "get_labeled_value page (before @ p # after) = clean_text (py_replace p [] full_text)"
    using assms by (simp add: get_labeled_value_skip Let_def)
qed

theorem get_labeled_value_first_match_witness:
  "v_inner_text (labelled ''Payment'' ''Payment: 500'' blank_view)
     (Sub (Last (Loc (label_xpath ''Payment''))) ''xpath=..'') = Inr ''Payment: 500'' \<and>
   (0::nat) < 1 \<and>
   v_count (labelled ''Payment'' ''Payment: 500'' blank_view) (Loc (label_xpath ''Fee'')) = Inr 0 \<and>
   v_count (labelled ''Payment'' ''Payment: 500'' blank_view) (Loc (label_xpath ''Payment'')) = Inr 1 \<and>
   v_count (labelled ''Payment'' ''Payment: 500'' blank_view) (Last (Loc (label_xpath ''Fee''))) = Inr 0 \<and>
   v_count (labelled ''Payment'' ''Payment: 500'' blank_view) (Last (Loc (label_xpath ''Payment'')))
     = Inr 1 \<and>
   py_replace '':'' [] (py_replace ''Payment'' [] ''Payment: 500'') = '' 500'' \<and>
   get_labeled_value2 (labelled ''Payment'' ''Payment: 500'' blank_view)
     [''Fee'', ''Payment'', ''Cost'', ''Price''] = ''500'' \<and>
   get_labeled_value (labelled ''Payment'' ''Payment: 500'' blank_view)
     [''Fee'', ''Payment'', ''Cost''] = '': 500'' \<and>
   py_replace '':'' [] (py_replace ''Validity'' [] ''Validity: '') = '' '' \<and>
   length (clean_text '' '') < 2 \<and>
   v_count (with_sibling ''Validity'' ''3 years'' (labelled ''Validity'' ''Validity: '' blank_view))
     (Sub (Last (Loc (label_xpath ''Validity''))) ''xpath=following-sibling::*[1]'') = Inr 1 \<and>
   get_labeled_value2
     (with_sibling ''Validity'' ''3 years'' (labelled ''Validity'' ''Validity: '' blank_view))
     [''Validity'', ''Valid For''] = ''3 years''"
proof -
  let ?page = "labelled ''Payment'' ''Payment: 500'' blank_view"
  let ?left = "py_replace '':'' [] (py_replace ''Payment'' [] ''Payment: 500'')"
  have a: "v_inner_text ?page (Sub (Last (Loc (label_xpath ''Payment''))) ''xpath=..'')
             = Inr ''Payment: 500''"
    by (simp add: labelled_def)
  have b: "(0::nat) < 1" by simp
  have c: "\<forall>q\<in>set [''Fee'']. v_count ?page (Loc (label_xpath q)) = Inr 0"
    "v_count ?page (Loc (label_xpath ''Payment'')) = Inr 1"
    "\<forall>q\<in>set [''Fee'']. v_count ?page (Last (Loc (label_xpath q))) = Inr 0"
    "v_count ?page (Last (Loc (label_xpath ''Payment''))) = Inr 1"
    by (simp_all add: labelled_def blank_view_def label_xpath_def quote_def)
  have d: "?left = '' 500''"
    by (simp add: py_replace_def)
  have d1: "?left \<noteq> []" "2 \<le> length (clean_text ?left)"
    "py_strip (collapse_ws (strip_tags ?left)) = ''500''"
    unfolding d by (simp_all add: clean_text_def py_strip_def isspace_def)
  have d3: "clean_text (py_replace ''Payment'' [] ''Payment: 500'') = '': 500''"
    by (simp add: clean_text_def py_replace_def py_strip_def isspace_def)
  from get_labeled_value_first_match [OF a b, of "[''Fee'']" "[''Cost'', ''Price'']"] c(1,2) d1(1,2)
  have "get_labeled_value2 ?page ([''Fee''] @ ''Payment'' # [''Cost'', ''Price'']) =
          py_strip (collapse_ws (strip_tags ?left))"
    by blast
  then have v2: "get_labeled_value2 ?page [''Fee'', ''Payment'', ''Cost'', ''Price''] = ''500''"
    unfolding d1(3) by simp
  from get_labeled_value_first_match [OF a b, of "[''Fee'']" "[''Cost'']"] c(3,4)
  have "get_labeled_value ?page ([''Fee''] @ ''Payment'' # [''Cost'']) =
          clean_text (py_replace ''Payment'' [] ''Payment: 500'')"
    by blast
  then have v1: "get_labeled_value ?page [''Fee'', ''Payment'', ''Cost''] = '': 500''"
    unfolding d3 by simp
  from c have c': "v_count ?page (Loc (label_xpath ''Fee'')) = Inr 0"
    "v_count ?page (Last (Loc (label_xpath ''Fee''))) = Inr 0"
    by simp_all
  let ?sib = "Sub (Last (Loc (label_xpath ''Validity''))) ''xpath=following-sibling::*[1]''"
  let ?page2 = "with_sibling ''Validity'' ''3 years'' (labelled ''Validity'' ''Validity: '' blank_view)"
  let ?left2 = "py_replace '':'' [] (py_replace ''Validity'' [] ''Validity: '')"
  have a2: "v_inner_text ?page2 (Sub (Last (Loc (label_xpath ''Validity''))) ''xpath=..'')
              = Inr ''Validity: ''"
    by (simp add: with_sibling_def labelled_def)
  have c2: "\<forall>q\<in>set []. v_count ?page2 (Loc (label_xpath q)) = Inr 0"
    "v_count ?page2 (Loc (label_xpath ''Validity'')) = Inr 1"
    by (simp_all add: with_sibling_def labelled_def)
  have s2: "v_count ?page2 ?sib = Inr 1" "v_inner_text ?page2 ?sib = Inr ''3 years''"
    by (simp_all add: with_sibling_def)
  have e: "?left2 = '' ''"
    by (simp add: py_replace_def)
  have e1: "?left2 \<noteq> []" "length (clean_text ?left2) < 2"
    unfolding e by (simp_all add: clean_text_def py_strip_def isspace_def)
  have e2: "length (clean_text '' '') < 2" "clean_text ''3 years'' = ''3 years''"
    by (simp_all add: clean_text_def py_strip_def isspace_def)
  from get_labeled_value_first_match [OF a2 b, of "[]" "[''Valid For'']"] c2 e1
  have f: "\<forall>m t. v_count ?page2 ?sib = Inr m \<longrightarrow> 0 < m \<longrightarrow>
             v_inner_text ?page2 ?sib = Inr t \<longrightarrow>
             get_labeled_value2 ?page2 ([] @ ''Validity'' # [''Valid For'']) = clean_text t"
    by blast
  have "get_labeled_value2 ?page2 ([] @ ''Validity'' # [''Valid For'']) = clean_text ''3 years''"
    by (rule f [rule_format, OF s2(1) b s2(2)])
  then have v3: "get_labeled_value2 ?page2 [''Validity'', ''Valid For''] = ''3 years''"
    unfolding e2(2) by simp
  show ?thesis using a c(2,4) c' d v1 v2 e e2(1) s2(1) v3 by simp
qed

text \<open>
  C3 as stated fails: with the container text "Time: 10:30" the label and the colon that
  trails it leave "10:30", but nsws_scraper2.py removes the colon of the value as well and
  returns "1030", and nsws_scraper.py removes no colon and returns ": 10:30".
\<close>

theorem get_labeled_value_strips_every_colon:
  "clean_text (strip_label_and_trailing_colon ''Time'' ''Time: 10:30'') = ''10:30'' \<and>
   get_labeled_value2 (labelled ''Time'' ''Time: 10:30'' blank_view)
     [''Time'', ''Timeline'', ''SLA'', ''Duration''] = ''1030'' \<and>
   get_labeled_value (labelled ''Time'' ''Time: 10:30'' blank_view)
     [''Time'', ''Timeline'', ''SLA''] = '': 10:30''"
  by (simp add: strip_label_and_trailing_colon_def labelled_def blank_view_def
      labeled_match2_def clean_text_def py_replace_def py_strip_def isspace_def Let_def)

section \<open>Properties: the rows of a walk\<close>

lemma grows_refl: "grows ext d hs extra csv files files"
  by (simp add: grows_def)

lemma grows_trans:
  assumes "grows ext d hs extra csv f1 f2" and "grows ext d hs extra csv f2 f3"
  shows "grows ext d hs extra csv f1 f3"
proof -
  from assms(1) obtain a1 where
    a: "content f2 csv = content f1 csv @ a1" "list_all (emitted ext d hs extra) a1"
    unfolding grows_def by blast
  from assms(2) obtain a2 where
    b: "content f3 csv = content f2 csv @ a2" "list_all (emitted ext d hs extra) a2"
    unfolding grows_def by blast
  have "content f3 csv = content f1 csv @ (a1 @ a2)" using a(1) b(1) by simp
  moreover have "list_all (emitted ext d hs extra) (a1 @ a2)" using a(2) b(2) by simp
  ultimately show ?thesis unfolding grows_def by blast
qed

lemma map_of_safe_keys:
  "map_of (foldl (\<lambda>d k. dict_set k (f k) d) data hs) k =
     (if k \<in> set hs then Some (f k) else map_of data k)"
  by (induction hs arbitrary: data) (simp_all add: map_of_dict_set)

lemma map_of_safe_row:
  "map_of (safe_row hs row_data) k =
     (if k \<in> set hs then Some (dict_get row_data k ''N/A'') else None)"
  unfolding safe_row_def by (simp add: map_of_safe_keys)

lemma safe_row_keys: "\<not> list_ex (\<lambda>k. k \<notin> set hs) (dict_keys (safe_row hs row_data))"
  by (auto simp: list_ex_iff dict_keys_map_of map_of_safe_row split: if_splits)

lemma safe_row_cells:
  "map (\<lambda>k. (k, dict_get (safe_row hs row_data) k [])) hs =
     map (\<lambda>k. (k, dict_get row_data k ''N/A'')) hs"
  by (simp add: dict_get_def map_of_safe_row)

lemma write_safe_row:
  "write_to_csv files csv hs (safe_row hs row_data) =
     (Inr (), files(csv \<mapsto> content files csv @ (if files csv = None then [Header hs] else [])
                        @ [Row (map (\<lambda>k. (k, dict_get row_data k ''N/A'')) hs)]))"
  by (simp add: write_to_csv_def safe_row_keys safe_row_cells Let_def)

lemma emitted_header: "emitted ext d hs extra (Header hs)"
  by (simp add: emitted_def)

lemma card_step_grows:
  "grows ext d hs extra csv files (snd (card_step ext pz d csv hs extra (w, files) i))"
proof (cases "d_get_attribute d w (First (Sub (Nth (Loc CARDS) i) ''a'')) ''href''")
  case (Inl e)
  then show ?thesis by (simp add: card_step_def grows_refl)
next
  case (Inr h)
  show ?thesis
  proof (cases h)
    case None
    then show ?thesis using Inr by (simp add: card_step_def grows_refl)
  next
    case (Some href)
    show ?thesis
    proof (cases "href = []")
      case True
      then show ?thesis using Inr Some by (simp add: card_step_def grows_refl)
    next
      case False
      show ?thesis
      proof (cases "ext (d_context d w) (d_urljoin d BASE_URL href)")
        case (Inl e)
        then show ?thesis using Inr Some False by (simp add: card_step_def grows_refl)
      next
        case rd: (Inr row_data)
        let ?row = "Row (map (\<lambda>k. (k, dict_get (overlay extra row_data) k ''N/A'')) hs)"
        let ?added = "(if files csv = None then [Header hs] else []) @ [?row]"
        have e: "emitted ext d hs extra ?row"
          unfolding emitted_def using Inr Some rd by blast
        have "snd (card_step ext pz d csv hs extra (w, files) i) =
                files(csv \<mapsto> content files csv @ ?added)"
          using Inr Some False rd by (simp add: card_step_def write_safe_row)
        then have "content (snd (card_step ext pz d csv hs extra (w, files) i)) csv =
                content files csv @ ?added"
          by (simp add: content_def)
        moreover have "list_all (emitted ext d hs extra) ?added"
          using e by (simp add: emitted_header)
        ultimately show ?thesis unfolding grows_def by blast
      qed
    qed
  qed
qed

lemma foldl_card_step_grows:
  "grows ext d hs extra csv files (snd (foldl (card_step ext pz d csv hs extra) (w, files) js))"
proof (induction js arbitrary: w files)
  case Nil
  show ?case by (simp add: grows_refl)
next
  case (Cons i js)
  obtain w1 files1 where s: "card_step ext pz d csv hs extra (w, files) i = (w1, files1)"
    by (cases "card_step ext pz d csv hs extra (w, files) i") auto
  have "grows ext d hs extra csv files files1"
    using card_step_grows [of ext d hs extra csv files pz w i] s by simp
  moreover have "grows ext d hs extra csv files1
      (snd (foldl (card_step ext pz d csv hs extra) (w1, files1) js))"
    by (rule Cons.IH)
  ultimately show ?case using s by (simp add: grows_trans)
qed

lemma pages_loop_grows:
  "grows extract_detail_page d hs extra csv files
     (files_of (pages_loop fuel d csv hs extra n w files))"
proof (induction fuel arbitrary: n w files)
  case 0
  show ?case by (simp add: files_of_def grows_refl)
next
  case (Suc fuel)
  show ?case
  proof (cases "d_count d w (Loc CARDS)")
    case (Inl e)
    then show ?thesis by (simp add: files_of_def grows_refl)
  next
    case (Inr count)
    obtain w1 files1 where
      f: "foldl (process_card d csv hs extra) (w, files) [0..<count] = (w1, files1)"
      by (cases "foldl (process_card d csv hs extra) (w, files) [0..<count]") auto
    have g: "grows extract_detail_page d hs extra csv files files1"
      using foldl_card_step_grows [of extract_detail_page d hs extra csv files "\<lambda>w. w" w
          "[0..<count]"] f
      by (simp add: process_card_def)
    show ?thesis
    proof (cases "next_page d w1")
      case (Terminal r w2)
      then show ?thesis using Inr f g by (simp add: files_of_def)
    next
      case (Advanced w2)
      have "files_of (pages_loop (Suc fuel) d csv hs extra n w files) =
              files_of (pages_loop fuel d csv hs extra (n + 1) w2 files1)"
        using Advanced Inr f by simp
      then show ?thesis using grows_trans [OF g Suc.IH [of files1 "n + 1" w2]] by simp
    qed
  qed
qed

lemma pages_loop2_grows:
  "grows extract_detail_page2 d hs extra csv files
     (files_of (pages_loop2 fuel d csv hs extra n w files))"
proof (induction fuel arbitrary: n w files)
  case 0
  show ?case by (simp add: files_of_def grows_refl)
next
  case (Suc fuel)
  obtain r0 w0 where wt: "d_wait_for_selector d w CARDS = (r0, w0)"
    by (cases "d_wait_for_selector d w CARDS") auto
  show ?case
  proof (cases r0)
    case (Inl e)
    then show ?thesis using wt by (simp add: files_of_def grows_refl)
  next
    case ok: (Inr u)
    show ?thesis
    proof (cases "d_count d w0 (Loc CARDS)")
      case (Inl e)
      then show ?thesis using wt ok by (simp add: files_of_def grows_refl)
    next
      case (Inr count)
      obtain w1 files1 where
        f: "foldl (process_card2 d csv hs extra) (w0, files) [0..<count] = (w1, files1)"
        by (cases "foldl (process_card2 d csv hs extra) (w0, files) [0..<count]") auto
      have g: "grows extract_detail_page2 d hs extra csv files files1"
        using foldl_card_step_grows [of extract_detail_page2 d hs extra csv files
            "\<lambda>w. d_sleep d w 4" w0 "[0..<count]"] f
        by (simp add: process_card2_def)
      show ?thesis
      proof (cases "next_page2 d w1")
        case (Terminal r w2)
        then show ?thesis using wt ok Inr f g by (simp add: files_of_def)
      next
        case (Advanced w2)
        have "files_of (pages_loop2 (Suc fuel) d csv hs extra n w files) =
                files_of (pages_loop2 fuel d csv hs extra (n + 1) w2 files1)"
          using Advanced wt ok Inr f by simp
        then show ?thesis using grows_trans [OF g Suc.IH [of files1 "n + 1" w2]] by simp
      qed
    qed
  qed
qed

lemma handle_pagination_grows:
  "grows extract_detail_page d hs extra csv files
     (files_of (handle_pagination_and_extraction fuel d csv hs extra w files))"
  "grows extract_detail_page2 d hs extra csv files
     (files_of (handle_pagination_and_extraction2 fuel d csv hs extra w files))"
  unfolding handle_pagination_and_extraction_def handle_pagination_and_extraction2_def
  by (rule pages_loop_grows, rule pages_loop2_grows)

lemma grows_rows:
  assumes "grows ext d hs extra csv files files1"
  shows "\<exists>added. content files1 csv = content files csv @ added \<and>
           (\<forall>cells. Row cells \<in> set added \<longrightarrow>
              (\<exists>w i href row_data.
                 d_get_attribute d w (First (Sub (Nth (Loc CARDS) i) ''a'')) ''href''
                   = Inr (Some href) \<and>
                 ext (d_context d w) (d_urljoin d BASE_URL href) = Inr row_data \<and>
                 cells = map (\<lambda>k. (k, dict_get (overlay extra row_data) k ''N/A'')) hs))"
proof -
  from assms obtain added where
    a: "content files1 csv = content files csv @ added"
    and b: "list_all (emitted ext d hs extra) added"
    unfolding grows_def by blast
  have "\<exists>w i href row_data.
          d_get_attribute d w (First (Sub (Nth (Loc CARDS) i) ''a'')) ''href'' = Inr (Some href) \<and>
          ext (d_context d w) (d_urljoin d BASE_URL href) = Inr row_data \<and>
          cells = map (\<lambda>k. (k, dict_get (overlay extra row_data) k ''N/A'')) hs"
    if "Row cells \<in> set added" for cells
  proof -
    from b that have "emitted ext d hs extra (Row cells)"
      unfolding list_all_iff by blast
    then show ?thesis unfolding emitted_def by simp
  qed
  with a show ?thesis by blast
qed

lemma grows_cells:
  assumes "grows ext d hs extra csv files files1"
  shows "\<exists>added. content files1 csv = content files csv @ added \<and>
           (\<forall>cells. Row cells \<in> set added \<longrightarrow>
              (\<exists>row_data. cells = map (\<lambda>k. (k, dict_get (overlay extra row_data) k ''N/A'')) hs))"
  using grows_rows [OF assms] by blast

lemmas walk_eval =
  handle_pagination_and_extraction_def handle_pagination_and_extraction2_def
  paged_driver_def page_at_def sim_count_def sim_get_attribute_def sim_click_def
  process_card_def process_card2_def card_step_def next_page_def next_page2_def
  CARDS_def NEXT_LI_def files_of_def outcome_of_def pages_of_def content_def
  extract_detail_page_def extract_detail_page2_def fetch_def one_site_def
  detail_steps_def detail_steps2_def health_view_def blank_view_def
  effect_def ignored_def assign_def heading_text_def banner_step_def banner_step2_def
  safe_extract_text_def applicability_def APPLY_BUTTON_def BANNER_def quote_def
  section_xpath_def label_xpath_def Let_def
  scan_banner_def banner_lines_def classify_line_def py_strip_def isspace_def clean_text_def
  overlay_def safe_row_def write_to_csv_def dict_keys_def dict_get_def MINISTRY_HEADERS_def

text \<open>
  One page with one card, whose detail page has the banner of \<open>health_view\<close>, walked in
  the Ministry phase with the forced name "Ministry of Finance", on no files.
\<close>

lemma ministry_walk:
  "content (files_of (handle_pagination_and_extraction 1
         (paged_driver (one_site health_view)
            [\<lparr>sp_cards = [Some ''https://www.nsws.gov.in/a''], sp_next = Absent, sp_click = Inr (), sp_response = Inr ()\<rparr>])
         ''Ministries.csv'' MINISTRY_HEADERS [(''Ministry Name'', ''Ministry of Finance'')]
         0 Map.empty)) ''Ministries.csv'' =
    [Header MINISTRY_HEADERS,
     Row [(''Approval Link'', ''https://www.nsws.gov.in/a''), (''Approval Name'', ''N/A''),
          (''Ministry Name'', ''Ministry of Finance''),
          (''About this approval'', ''N/A''), (''Who can apply'', ''N/A''),
          (''Documents required'', ''N/A''), (''Approval applicability/trigger'', ''N/A''),
          (''Application Fee'', ''N/A''), (''Validity'', ''N/A''),
          (''Average Time taken to get this'', ''N/A''),
          (''Can be applied through NSWS'', ''No (Information Only)'')]]"
  by (simp add: walk_eval)

lemma ministry_walk2:
  "content (files_of (handle_pagination_and_extraction2 1
         (paged_driver (one_site health_view)
            [\<lparr>sp_cards = [Some ''https://www.nsws.gov.in/a''], sp_next = Absent, sp_click = Inr (), sp_response = Inr ()\<rparr>])
         ''Ministries.csv'' MINISTRY_HEADERS [(''Ministry Name'', ''Ministry of Finance'')]
         0 Map.empty)) ''Ministries.csv'' =
    [Header MINISTRY_HEADERS,
     Row [(''Approval Link'', ''https://www.nsws.gov.in/a''), (''Approval Name'', ''N/A''),
          (''Ministry Name'', ''Ministry of Finance''),
          (''About this approval'', ''N/A''), (''Who can apply'', ''N/A''),
          (''Documents required'', ''N/A''), (''Approval applicability/trigger'', ''N/A''),
          (''Application Fee'', ''N/A''), (''Validity'', ''N/A''),
          (''Average Time taken to get this'', ''N/A''),
          (''Can be applied through NSWS'', ''No (Information Only)'')]]"
  by (simp add: walk_eval)

lemma health_record:
  "extract_detail_page (one_site health_view) url =
     Inr [(''Approval Link'', url), (''Approval Name'', ''N/A''),
          (''Ministry Name'', ''Ministry of Health''),
          (''Department Name'', ''Department of Health Research''),
          (''About this approval'', ''N/A''), (''Who can apply'', ''N/A''),
          (''Documents required'', ''N/A''), (''Approval applicability/trigger'', ''N/A''),
          (''Application Fee'', ''N/A''), (''Validity'', ''N/A''),
          (''Average Time taken to get this'', ''N/A''),
          (''Can be applied through NSWS'', ''No (Information Only)'')]"
  by (simp add: walk_eval)

text \<open>
  A schema with a column that no extracted record has, walked without forced fields over
  one page with one card.
\<close>

lemma remarks_walk:
  "content (files_of (handle_pagination_and_extraction 1
         (paged_driver (one_site health_view)
            [\<lparr>sp_cards = [Some ''https://www.nsws.gov.in/a''], sp_next = Absent,
               sp_click = Inr (), sp_response = Inr ()\<rparr>])
         ''Extract.csv'' [''Approval Link'', ''Ministry Name'', ''Remarks''] []
         0 Map.empty)) ''Extract.csv'' =
    [Header [''Approval Link'', ''Ministry Name'', ''Remarks''],
     Row [(''Approval Link'', ''https://www.nsws.gov.in/a''),
          (''Ministry Name'', ''Ministry of Health''), (''Remarks'', ''N/A'')]]"
  by (simp add: walk_eval)

text \<open>
  C6. Whatever the driver, the schema, the forced fields, the files and the fuel, the
  walk extends the sink at its end, and every row among the lines it has appended comes
  from a record that the detail fetcher returned for the link of a card: the row is the
  list of the schema's columns in order, and the value of each column is the value the
  record, overlaid with the forced fields, has for that column, or \<open>N/A\<close> when it has
  none. The same holds in both source files.
\<close>

theorem rows_have_every_column:
  "(\<exists>added.
      content (files_of (handle_pagination_and_extraction fuel d csv hs extra w files)) csv
        = content files csv @ added \<and>
      (\<forall>cells. Row cells \<in> set added \<longrightarrow>
         (\<exists>w1 i href row_data.
            d_get_attribute d w1 (First (Sub (Nth (Loc CARDS) i) ''a'')) ''href''
              = Inr (Some href) \<and>
            extract_detail_page (d_context d w1) (d_urljoin d BASE_URL href) = Inr row_data \<and>
            cells = map (\<lambda>k. (k, case map_of (overlay extra row_data) k of
                                     None \<Rightarrow> ''N/A'' | Some v \<Rightarrow> v)) hs))) \<and>
   (\<exists>added.
      content (files_of (handle_pagination_and_extraction2 fuel d csv hs extra w files)) csv
        = content files csv @ added \<and>
      (\<forall>cells. Row cells \<in> set added \<longrightarrow>
         (\<exists>w1 i href row_data.
            d_get_attribute d w1 (First (Sub (Nth (Loc CARDS) i) ''a'')) ''href''
              = Inr (Some href) \<and>
            extract_detail_page2 (d_context d w1) (d_urljoin d BASE_URL href) = Inr row_data \<and>
            cells = map (\<lambda>k. (k, case map_of (overlay extra row_data) k of
                                     None \<Rightarrow> ''N/A'' | Some v \<Rightarrow> v)) hs)))"
  using grows_rows [OF handle_pagination_grows(1) [of d hs extra csv files fuel w]]
    grows_rows [OF handle_pagination_grows(2) [of d hs extra csv files fuel w]]
  unfolding dict_get_def by simp

theorem rows_have_every_column_witness:
  "content (files_of (handle_pagination_and_extraction 1
         (paged_driver (one_site health_view)
            [\<lparr>sp_cards = [Some ''https://www.nsws.gov.in/a''], sp_next = Absent,
               sp_click = Inr (), sp_response = Inr ()\<rparr>])
         ''Extract.csv'' [''Approval Link'', ''Ministry Name'', ''Remarks''] []
         0 Map.empty)) ''Extract.csv'' =
    [Header [''Approval Link'', ''Ministry Name'', ''Remarks''],
     Row [(''Approval Link'', ''https://www.nsws.gov.in/a''),
          (''Ministry Name'', ''Ministry of Health''), (''Remarks'', ''N/A'')]] \<and>
   (\<exists>href row_data.
      extract_detail_page (one_site health_view) href = Inr row_data \<and>
      map_of row_data ''Ministry Name'' = Some ''Ministry of Health'' \<and>
      map_of row_data ''Remarks'' = None \<and>
      [(''Approval Link'', ''https://www.nsws.gov.in/a''),
       (''Ministry Name'', ''Ministry of Health''), (''Remarks'', ''N/A'')]
      = map (\<lambda>k. (k, case map_of (overlay [] row_data) k of None \<Rightarrow> ''N/A'' | Some v \<Rightarrow> v))
          [''Approval Link'', ''Ministry Name'', ''Remarks''])"
proof -
  let ?d = "paged_driver (one_site health_view)
              [\<lparr>sp_cards = [Some ''https://www.nsws.gov.in/a''], sp_next = Absent,
                 sp_click = Inr (), sp_response = Inr ()\<rparr>]"
  let ?hs = "[''Approval Link'', ''Ministry Name'', ''Remarks'']"
  let ?cells = "[(''Approval Link'', ''https://www.nsws.gov.in/a''),
       (''Ministry Name'', ''Ministry of Health''), (''Remarks'', ''N/A'')]"
  from rows_have_every_column [of 1 ?d "''Extract.csv''" ?hs "[]" 0 Map.empty]
  obtain added where
    a: "content (files_of (handle_pagination_and_extraction 1 ?d ''Extract.csv''
          ?hs [] 0 Map.empty)) ''Extract.csv''
        = content Map.empty ''Extract.csv'' @ added"
    and b: "\<forall>cells. Row cells \<in> set added \<longrightarrow>
         (\<exists>w1 i href row_data.
            d_get_attribute ?d w1 (First (Sub (Nth (Loc CARDS) i) ''a'')) ''href''
              = Inr (Some href) \<and>
            extract_detail_page (d_context ?d w1) (d_urljoin ?d BASE_URL href) = Inr row_data \<and>
            cells = map (\<lambda>k. (k, case map_of (overlay [] row_data) k of
                                     None \<Rightarrow> ''N/A'' | Some v \<Rightarrow> v)) ?hs)"
    by blast
  from a [unfolded remarks_walk] have "added = [Header ?hs, Row ?cells]"
    by (simp add: content_def)
  then have m: "Row ?cells \<in> set added" by simp
  note ex = b [rule_format, OF m]
  from ex obtain w1 i href row_data where
    r: "extract_detail_page (d_context ?d w1) (d_urljoin ?d BASE_URL href) = Inr row_data"
    and c: "?cells = map (\<lambda>k. (k, case map_of (overlay [] row_data) k of
                                     None \<Rightarrow> ''N/A'' | Some v \<Rightarrow> v)) ?hs"
    by (elim exE conjE)
  from r have r': "extract_detail_page (one_site health_view) href = Inr row_data"
    by (simp add: paged_driver_def)
  then have f: "map_of row_data ''Ministry Name'' = Some ''Ministry of Health''"
    "map_of row_data ''Remarks'' = None"
    by (auto simp: health_record)
  have all: "extract_detail_page (one_site health_view) href = Inr row_data \<and>
      map_of row_data ''Ministry Name'' = Some ''Ministry of Health'' \<and>
      map_of row_data ''Remarks'' = None \<and>
      ?cells = map (\<lambda>k. (k, case map_of (overlay [] row_data) k of
                               None \<Rightarrow> ''N/A'' | Some v \<Rightarrow> v)) ?hs"
    using r' f c by (intro conjI)
  have "\<exists>href row_data.
      extract_detail_page (one_site health_view) href = Inr row_data \<and>
      map_of row_data ''Ministry Name'' = Some ''Ministry of Health'' \<and>
      map_of row_data ''Remarks'' = None \<and>
      ?cells = map (\<lambda>k. (k, case map_of (overlay [] row_data) k of
                               None \<Rightarrow> ''N/A'' | Some v \<Rightarrow> v)) ?hs"
    by (rule exI [of _ href], rule exI [of _ row_data], rule all)
  with remarks_walk show ?thesis by (intro conjI)
qed

lemma overlay_forced: "dict_get (overlay [(key, forced)] row_data) key dflt = forced"
  by (simp add: overlay_def dict_get_def map_of_dict_set)

lemma grows_forced:
  assumes "grows ext d hs [(key, forced)] csv files files1"
  shows "\<exists>added. content files1 csv = content files csv @ added \<and>
           (\<forall>cells. Row cells \<in> set added \<longrightarrow>
              (\<forall>v. (key, v) \<in> set cells \<longrightarrow> v = forced) \<and>
              (key \<in> set hs \<longrightarrow> (key, forced) \<in> set cells))"
proof -
  from grows_cells [OF assms] obtain added where
    a: "content files1 csv = content files csv @ added"
    and b: "\<forall>cells. Row cells \<in> set added \<longrightarrow>
              (\<exists>row_data. cells =
                 map (\<lambda>k. (k, dict_get (overlay [(key, forced)] row_data) k ''N/A'')) hs)"
    by blast
  have "(\<forall>v. (key, v) \<in> set cells \<longrightarrow> v = forced) \<and>
        (key \<in> set hs \<longrightarrow> (key, forced) \<in> set cells)"
    if "Row cells \<in> set added" for cells
  proof -
    from b that obtain row_data where
      c: "cells = map (\<lambda>k. (k, dict_get (overlay [(key, forced)] row_data) k ''N/A'')) hs"
      by blast
    show ?thesis unfolding c by (auto simp: overlay_forced image_iff)
  qed
  with a show ?thesis by blast
qed

text \<open>
  C8. In a walk with one forced field, as the filtered phases run it, every row among the
  lines the walk has appended has the forced value, and no other, in the column of the
  forced field when the schema has that column, whatever the detail page gave for it.
  The same holds in both source files.
\<close>

theorem forced_field_overrides:
  "(\<exists>added.
      content (files_of (handle_pagination_and_extraction fuel d csv hs [(key, forced)] w files))
        csv = content files csv @ added \<and>
      (\<forall>cells. Row cells \<in> set added \<longrightarrow>
         (\<forall>v. (key, v) \<in> set cells \<longrightarrow> v = forced) \<and>
         (key \<in> set hs \<longrightarrow> (key, forced) \<in> set cells))) \<and>
   (\<exists>added.
      content (files_of (handle_pagination_and_extraction2 fuel d csv hs [(key, forced)] w files))
        csv = content files csv @ added \<and>
      (\<forall>cells. Row cells \<in> set added \<longrightarrow>
         (\<forall>v. (key, v) \<in> set cells \<longrightarrow> v = forced) \<and>
         (key \<in> set hs \<longrightarrow> (key, forced) \<in> set cells)))"
  using grows_forced [OF handle_pagination_grows(1) [of d hs "[(key, forced)]" csv files fuel w]]
    grows_forced [OF handle_pagination_grows(2) [of d hs "[(key, forced)]" csv files fuel w]]
  by blast

theorem forced_field_overrides_witness:
  "map_of (projr (extract_detail_page (one_site health_view) ''https://www.nsws.gov.in/a''))
     ''Ministry Name'' = Some ''Ministry of Health'' \<and>
   ''Ministry Name'' \<in> set MINISTRY_HEADERS \<and>
   (\<exists>cells.
      content (files_of (handle_pagination_and_extraction 1
         (paged_driver (one_site health_view)
            [\<lparr>sp_cards = [Some ''https://www.nsws.gov.in/a''], sp_next = Absent, sp_click = Inr (), sp_response = Inr ()\<rparr>])
         ''Ministries.csv'' MINISTRY_HEADERS [(''Ministry Name'', ''Ministry of Finance'')]
         0 Map.empty)) ''Ministries.csv'' = [Header MINISTRY_HEADERS, Row cells] \<and>
      (''Ministry Name'', ''Ministry of Finance'') \<in> set cells \<and>
      (''Ministry Name'', ''Ministry of Health'') \<notin> set cells)"
proof -
  let ?d = "paged_driver (one_site health_view)
              [\<lparr>sp_cards = [Some ''https://www.nsws.gov.in/a''], sp_next = Absent, sp_click = Inr (), sp_response = Inr ()\<rparr>]"
  let ?cells = "[(''Approval Link'', ''https://www.nsws.gov.in/a''), (''Approval Name'', ''N/A''),
       (''Ministry Name'', ''Ministry of Finance''),
       (''About this approval'', ''N/A''), (''Who can apply'', ''N/A''),
       (''Documents required'', ''N/A''), (''Approval applicability/trigger'', ''N/A''),
       (''Application Fee'', ''N/A''), (''Validity'', ''N/A''),
       (''Average Time taken to get this'', ''N/A''),
       (''Can be applied through NSWS'', ''No (Information Only)'')]"
  have k: "''Ministry Name'' \<in> set MINISTRY_HEADERS" by (simp add: MINISTRY_HEADERS_def)
  from forced_field_overrides [of 1 ?d "''Ministries.csv''" MINISTRY_HEADERS
      "''Ministry Name''" "''Ministry of Finance''" 0 Map.empty]
  obtain added where
    a: "content (files_of (handle_pagination_and_extraction 1 ?d ''Ministries.csv''
          MINISTRY_HEADERS [(''Ministry Name'', ''Ministry of Finance'')] 0 Map.empty))
          ''Ministries.csv''
        = content Map.empty ''Ministries.csv'' @ added"
    and b: "\<forall>cells. Row cells \<in> set added \<longrightarrow>
         (\<forall>v. (''Ministry Name'', v) \<in> set cells \<longrightarrow> v = ''Ministry of Finance'') \<and>
         (''Ministry Name'' \<in> set MINISTRY_HEADERS \<longrightarrow>
            (''Ministry Name'', ''Ministry of Finance'') \<in> set cells)"
    by blast
  from a [unfolded ministry_walk] have "added = [Header MINISTRY_HEADERS, Row ?cells]"
    by (simp add: content_def)
  then have "Row ?cells \<in> set added" by simp
  with b k have "(''Ministry Name'', ''Ministry of Finance'') \<in> set ?cells"
    and "\<forall>v. (''Ministry Name'', v) \<in> set ?cells \<longrightarrow> v = ''Ministry of Finance''"
    by blast+
  then have "(''Ministry Name'', ''Ministry of Finance'') \<in> set ?cells \<and>
      (''Ministry Name'', ''Ministry of Health'') \<notin> set ?cells"
    by auto
  moreover have "map_of (projr (extract_detail_page (one_site health_view)
      ''https://www.nsws.gov.in/a'')) ''Ministry Name'' = Some ''Ministry of Health''"
    by (simp add: health_record)
  ultimately show ?thesis using ministry_walk k by blast
qed




section \<open>Properties: pagination\<close>

text \<open>
  Processing the cards of a page leaves the page: the detail pages are opened in views of
  their own, and the only steps on the results page are pauses.
\<close>

lemma card_step_page:
  assumes "\<And>w. pg (pz w) = pg w"
  shows "pg (fst (card_step ext pz d csv hs extra (w, files) i)) = pg w"
  using assms by (simp add: card_step_def split: sum.splits option.splits prod.splits)

lemma foldl_card_step_page:
  assumes "\<And>w. pg (pz w) = pg w"
  shows "pg (fst (foldl (card_step ext pz d csv hs extra) (w, files) js)) = pg w"
proof (induction js arbitrary: w files)
  case Nil
  show ?case by simp
next
  case (Cons i js)
  obtain w1 files1 where s: "card_step ext pz d csv hs extra (w, files) i = (w1, files1)"
    by (cases "card_step ext pz d csv hs extra (w, files) i") auto
  have "pg w1 = pg w"
    using card_step_page [of pg pz ext d csv hs extra w files i] assms s by simp
  then show ?case using s Cons.IH [of w1 files1] by simp
qed

lemma next_page_terminal:
  assumes "next_absent_or_disabled d w"
  shows "next_page d w = Terminal (Inr ()) w" and "next_page2 d w = Terminal (Inr ()) w"
  using assms
  by (auto simp: next_absent_or_disabled_def next_page_def next_page2_def disabled_marker_def
      split: sum.splits)

lemma next_page_advance:
  assumes "next_present_and_enabled d w" and "next_can_be_clicked d w"
    and "fst (d_expect_response d (snd (d_click d w NEXT_BUTTON))) = Inr ()"
  shows "next_page d w =
           Advanced (d_sleep d (snd (d_expect_response d (snd (d_click d w NEXT_BUTTON)))) 2)"
proof -
  obtain r1 w1 where c: "d_click d w NEXT_BUTTON = (r1, w1)"
    by (cases "d_click d w NEXT_BUTTON") auto
  obtain r2 w2 where r: "d_expect_response d w1 = (r2, w2)"
    by (cases "d_expect_response d w1") auto
  have r1: "r1 = Inr ()" using assms(2) c by (simp add: next_can_be_clicked_def)
  have r2: "r2 = Inr ()" using assms(3) c r by simp
  show ?thesis
    using assms(1,2) c r r1 r2
    by (simp add: next_present_and_enabled_def next_can_be_clicked_def next_page_def
        NEXT_BUTTON_def disabled_marker_def split: sum.splits)
qed

lemma next_page2_advance:
  assumes "next_present_and_enabled d w" and "next_can_be_clicked d w"
  shows "next_page2 d w = Advanced (d_sleep d (snd (d_click d w NEXT_BUTTON)) 3)"
proof -
  obtain r1 w1 where c: "d_click d w NEXT_BUTTON = (r1, w1)"
    by (cases "d_click d w NEXT_BUTTON") auto
  have r1: "r1 = Inr ()" using assms(2) c by (simp add: next_can_be_clicked_def)
  show ?thesis
    using assms(1,2) c r1
    by (simp add: next_present_and_enabled_def next_can_be_clicked_def next_page2_def
        NEXT_BUTTON_def disabled_marker_def split: sum.splits)
qed


lemma pages_loop_serves:
  fixes pg :: "'w \<Rightarrow> nat"
  assumes sleep: "\<forall>w n. pg (d_sleep d w n) = pg w"
    and cards: "\<forall>w. \<not> isl (d_count d w (Loc CARDS))"
    and last: "\<forall>w. pg w = N - 1 \<longrightarrow> next_absent_or_disabled d w"
    and earlier: "\<forall>w. pg w < N - 1 \<longrightarrow>
           next_present_and_enabled d w \<and> next_can_be_clicked d w \<and>
           pg (snd (d_click d w NEXT_BUTTON)) = pg w + 1"
    and response: "\<forall>w. 0 < pg w \<and> pg w < N \<longrightarrow>
           fst (d_expect_response d w) = Inr () \<and> pg (snd (d_expect_response d w)) = pg w"
  shows "pg w < N \<Longrightarrow> N - pg w \<le> fuel \<Longrightarrow>
     outcome_of (pages_loop fuel d csv hs extra n w files) = Some (Inr ()) \<and>
     pages_of (pages_loop fuel d csv hs extra n w files) = n + (N - 1 - pg w) \<and>
     pg (world_of (pages_loop fuel d csv hs extra n w files)) = N - 1"
proof (induction fuel arbitrary: n w files)
  case 0
  then show ?case by simp
next
  case (Suc fuel)
  obtain count where cnt: "d_count d w (Loc CARDS) = Inr count"
    using cards [rule_format, of w] by (cases "d_count d w (Loc CARDS)") simp_all
  obtain w1 files1 where
    f: "foldl (process_card d csv hs extra) (w, files) [0..<count] = (w1, files1)"
    by (cases "foldl (process_card d csv hs extra) (w, files) [0..<count]") auto
  have p1: "pg w1 = pg w"
    using foldl_card_step_page [of pg "\<lambda>w. w" extract_detail_page d csv hs extra w files
        "[0..<count]"] f
    by (simp add: process_card_def)
  show ?case
  proof (cases "pg w = N - 1")
    case True
    then have "next_page d w1 = Terminal (Inr ()) w1"
      using last p1 next_page_terminal(1) [of d w1] by simp
    then have "pages_loop (Suc fuel) d csv hs extra n w files = (Some (Inr ()), n, w1, files1)"
      using cnt f by simp
    then show ?thesis using True p1 by (simp add: outcome_of_def pages_of_def world_of_def)
  next
    case False
    then have lt: "pg w1 < N - 1" using Suc.prems(1) p1 by simp
    let ?w2 = "snd (d_click d w1 NEXT_BUTTON)"
    let ?w3 = "snd (d_expect_response d ?w2)"
    let ?w4 = "d_sleep d ?w3 2"
    from earlier lt have e: "next_present_and_enabled d w1" "next_can_be_clicked d w1"
      "pg ?w2 = pg w1 + 1"
      by blast+
    have "0 < pg ?w2 \<and> pg ?w2 < N" using e(3) lt by simp
    with response have r: "fst (d_expect_response d ?w2) = Inr ()" "pg ?w3 = pg ?w2"
      by blast+
    have adv: "next_page d w1 = Advanced ?w4"
      using next_page_advance [OF e(1,2) r(1)] .
    have p4: "pg ?w4 = pg w + 1" using sleep r(2) e(3) p1 by simp
    have "pg ?w4 < N" and "N - pg ?w4 \<le> fuel"
      using p4 lt p1 Suc.prems(2) by simp_all
    note ih = Suc.IH [OF this, of "n + 1" files1]
    have "pages_loop (Suc fuel) d csv hs extra n w files
            = pages_loop fuel d csv hs extra (n + 1) ?w4 files1"
      using cnt f adv by simp
    moreover have "n + 1 + (N - 1 - pg ?w4) = n + (N - 1 - pg w)"
      using p4 lt p1 by arith
    ultimately show ?thesis using ih by simp
  qed
qed

lemma pages_loop2_serves:
  fixes pg :: "'w \<Rightarrow> nat"
  assumes sleep: "\<forall>w n. pg (d_sleep d w n) = pg w"
    and cards: "\<forall>w. \<not> isl (d_count d w (Loc CARDS))"
    and last: "\<forall>w. pg w = N - 1 \<longrightarrow> next_absent_or_disabled d w"
    and earlier: "\<forall>w. pg w < N - 1 \<longrightarrow>
           next_present_and_enabled d w \<and> next_can_be_clicked d w \<and>
           pg (snd (d_click d w NEXT_BUTTON)) = pg w + 1"
    and wait: "\<forall>w. pg (snd (d_wait_for_selector d w CARDS)) = pg w"
    and shown: "\<forall>w. pg w < N - 1 \<longrightarrow> fst (d_wait_for_selector d w CARDS) = Inr ()"
  shows "pg w < N \<Longrightarrow> N - pg w \<le> fuel \<Longrightarrow>
     outcome_of (pages_loop2 fuel d csv hs extra n w files) = Some (Inr ()) \<and>
     pages_of (pages_loop2 fuel d csv hs extra n w files) = n + (N - 1 - pg w) \<and>
     pg (world_of (pages_loop2 fuel d csv hs extra n w files)) = N - 1"
proof (induction fuel arbitrary: n w files)
  case 0
  then show ?case by simp
next
  case (Suc fuel)
  obtain r0 w0 where wt: "d_wait_for_selector d w CARDS = (r0, w0)"
    by (cases "d_wait_for_selector d w CARDS") auto
  have p0: "pg w0 = pg w" using wait [rule_format, of w] wt by simp
  show ?case
  proof (cases r0)
    case (Inl e)
    have "pg w = N - 1"
    proof (rule ccontr)
      assume "pg w \<noteq> N - 1"
      then have "pg w < N - 1" using Suc.prems(1) by simp
      with shown have "fst (d_wait_for_selector d w CARDS) = Inr ()" by blast
      then show False using wt Inl by simp
    qed
    moreover have "pages_loop2 (Suc fuel) d csv hs extra n w files = (Some (Inr ()), n, w0, files)"
      using wt Inl by simp
    ultimately show ?thesis using p0 by (simp add: outcome_of_def pages_of_def world_of_def)
  next
    case ok: (Inr u)
    obtain count where cnt: "d_count d w0 (Loc CARDS) = Inr count"
      using cards [rule_format, of w0] by (cases "d_count d w0 (Loc CARDS)") simp_all
    obtain w1 files1 where
      f: "foldl (process_card2 d csv hs extra) (w0, files) [0..<count] = (w1, files1)"
      by (cases "foldl (process_card2 d csv hs extra) (w0, files) [0..<count]") auto
    have "pg w1 = pg w0"
      using foldl_card_step_page [of pg "\<lambda>w. d_sleep d w 4" extract_detail_page2 d csv hs extra
          w0 files "[0..<count]"] f sleep
      by (simp add: process_card2_def)
    then have p1: "pg w1 = pg w" using p0 by simp
    show ?thesis
    proof (cases "pg w = N - 1")
      case True
      then have "next_page2 d w1 = Terminal (Inr ()) w1"
        using last p1 next_page_terminal(2) [of d w1] by simp
      then have "pages_loop2 (Suc fuel) d csv hs extra n w files = (Some (Inr ()), n, w1, files1)"
        using wt ok cnt f by simp
      then show ?thesis using True p1 by (simp add: outcome_of_def pages_of_def world_of_def)
    next
      case False
      then have lt: "pg w1 < N - 1" using Suc.prems(1) p1 by simp
      let ?w2 = "snd (d_click d w1 NEXT_BUTTON)"
      let ?w4 = "d_sleep d ?w2 3"
      from earlier lt have e: "next_present_and_enabled d w1" "next_can_be_clicked d w1"
        "pg ?w2 = pg w1 + 1"
        by blast+
      have adv: "next_page2 d w1 = Advanced ?w4"
        using next_page2_advance [OF e(1,2)] .
      have p4: "pg ?w4 = pg w + 1" using sleep e(3) p1 by simp
      have "pg ?w4 < N" and "N - pg ?w4 \<le> fuel"
        using p4 lt p1 Suc.prems(2) by simp_all
      note ih = Suc.IH [OF this, of "n + 1" files1]
      have "pages_loop2 (Suc fuel) d csv hs extra n w files
              = pages_loop2 fuel d csv hs extra (n + 1) ?w4 files1"
        using wt ok cnt f adv by simp
      moreover have "n + 1 + (N - 1 - pg ?w4) = n + (N - 1 - pg w)"
        using p4 lt p1 by arith
      ultimately show ?thesis using ih by simp
    qed
  qed
qed


text \<open>
  On the simulated sequence of pages the three conditions on the "next" control are the
  attributes of the page that is shown.
\<close>

lemma paged_next_absent_or_disabled:
  "next_absent_or_disabled (paged_driver ctx ps) w = absent_or_disabled (sp_next (page_at ps w))"
  by (cases "sp_next (page_at ps w)")
    (simp_all add: next_absent_or_disabled_def paged_driver_def sim_count_def
      sim_get_attribute_def NEXT_LI_def CARDS_def)

lemma paged_next_present_and_enabled:
  "next_present_and_enabled (paged_driver ctx ps) w = present_and_enabled (sp_next (page_at ps w))"
  by (cases "sp_next (page_at ps w)")
    (simp_all add: next_present_and_enabled_def paged_driver_def sim_count_def
      sim_get_attribute_def NEXT_LI_def CARDS_def)

lemma paged_next_can_be_clicked:
  "next_can_be_clicked (paged_driver ctx ps) w =
     (has_button (sp_next (page_at ps w)) \<and> sp_click (page_at ps w) = Inr ())"
  by (cases "sp_next (page_at ps w)"; cases "sp_click (page_at ps w)")
    (simp_all add: next_can_be_clicked_def NEXT_BUTTON_def paged_driver_def sim_count_def
      sim_click_def NEXT_LI_def CARDS_def)

lemma paged_click:
  assumes "has_button (sp_next (page_at ps w))" and "sp_click (page_at ps w) = Inr ()"
  shows "snd (d_click (paged_driver ctx ps) w NEXT_BUTTON) = w + 1"
  using assms
  by (cases "sp_next (page_at ps w)")
    (simp_all add: NEXT_BUTTON_def paged_driver_def sim_click_def)

text \<open>
  C9, as amended. Take any browser and any numbering \<open>pg\<close> of its states by the page of
  the results they show, counting from 0, for a sequence of N pages, N at least 1, the
  walk starting on the first. Pauses leave the page and counting the cards does not fail.
  On page N the "next" control is absent or carries the disabled marker; on every earlier
  page it is present, without the marker, has the anchor or button that is clicked, and
  the click succeeds and leads to the following page. With fuel for N pages, the walk of
  nsws_scraper.py returns without an exception, with page number N and on page N, when on
  every page after the first the response of status 200 comes within the wait that
  follows the click; the walk of nsws_scraper2.py does so when the wait for cards
  succeeds on every earlier page.
\<close>

theorem pagination_visits_every_page:
  fixes pg :: "'w \<Rightarrow> nat"
  assumes "0 < N" and "N \<le> fuel" and "pg w = 0"
    and "\<forall>w n. pg (d_sleep d w n) = pg w"
    and "\<forall>w. \<not> isl (d_count d w (Loc CARDS))"
    and "\<forall>w. pg w = N - 1 \<longrightarrow> next_absent_or_disabled d w"
    and "\<forall>w. pg w < N - 1 \<longrightarrow>
           next_present_and_enabled d w \<and> next_can_be_clicked d w \<and>
           pg (snd (d_click d w NEXT_BUTTON)) = pg w + 1"
  shows "((\<forall>w. 0 < pg w \<and> pg w < N \<longrightarrow>
             fst (d_expect_response d w) = Inr () \<and> pg (snd (d_expect_response d w)) = pg w) \<longrightarrow>
          outcome_of (handle_pagination_and_extraction fuel d csv hs extra w files)
            = Some (Inr ()) \<and>
          pages_of (handle_pagination_and_extraction fuel d csv hs extra w files) = N \<and>
          pg (world_of (handle_pagination_and_extraction fuel d csv hs extra w files)) = N - 1) \<and>
         ((\<forall>w. pg (snd (d_wait_for_selector d w CARDS)) = pg w) \<and>
          (\<forall>w. pg w < N - 1 \<longrightarrow> fst (d_wait_for_selector d w CARDS) = Inr ()) \<longrightarrow>
          outcome_of (handle_pagination_and_extraction2 fuel d csv hs extra w files)
            = Some (Inr ()) \<and>
          pages_of (handle_pagination_and_extraction2 fuel d csv hs extra w files) = N \<and>
          pg (world_of (handle_pagination_and_extraction2 fuel d csv hs extra w files)) = N - 1)"
proof -
  have s: "pg w < N" and f: "N - pg w \<le> fuel"
    using assms(1,2,3) by simp_all
  have one: "1 + (N - 1 - pg w) = N" using assms(1,3) by simp
  have v1: "outcome_of (handle_pagination_and_extraction fuel d csv hs extra w files)
              = Some (Inr ()) \<and>
            pages_of (handle_pagination_and_extraction fuel d csv hs extra w files) = N \<and>
            pg (world_of (handle_pagination_and_extraction fuel d csv hs extra w files)) = N - 1"
    if c: "\<forall>w. 0 < pg w \<and> pg w < N \<longrightarrow>
             fst (d_expect_response d w) = Inr () \<and> pg (snd (d_expect_response d w)) = pg w"
    using pages_loop_serves [OF assms(4,5,6,7) c s f, of csv hs extra 1 files]
    unfolding handle_pagination_and_extraction_def one by simp
  have v2: "outcome_of (handle_pagination_and_extraction2 fuel d csv hs extra w files)
              = Some (Inr ()) \<and>
            pages_of (handle_pagination_and_extraction2 fuel d csv hs extra w files) = N \<and>
            pg (world_of (handle_pagination_and_extraction2 fuel d csv hs extra w files)) = N - 1"
    if c: "\<forall>w. pg (snd (d_wait_for_selector d w CARDS)) = pg w"
      and c': "\<forall>w. pg w < N - 1 \<longrightarrow> fst (d_wait_for_selector d w CARDS) = Inr ()"
    using pages_loop2_serves [OF assms(4,5,6,7) c c' s f, of csv hs extra 1 files]
    unfolding handle_pagination_and_extraction2_def one by simp
  from v1 v2 show ?thesis by blast
qed

theorem pagination_visits_every_page_witness:
  "next_present_and_enabled
     (paged_driver (one_site blank_view)
        [\<lparr>sp_cards = [Some ''https://www.nsws.gov.in/a''],
           sp_next = Present (Some ''ant-pagination-next'') True,
           sp_click = Inr (), sp_response = Inr ()\<rparr>,
         \<lparr>sp_cards = [Some ''https://www.nsws.gov.in/b''],
           sp_next = Present (Some ''ant-pagination-next ant-pagination-disabled'') True,
           sp_click = Inr (), sp_response = Inr ()\<rparr>]) 0 \<and>
   next_can_be_clicked
     (paged_driver (one_site blank_view)
        [\<lparr>sp_cards = [Some ''https://www.nsws.gov.in/a''],
           sp_next = Present (Some ''ant-pagination-next'') True,
           sp_click = Inr (), sp_response = Inr ()\<rparr>,
         \<lparr>sp_cards = [Some ''https://www.nsws.gov.in/b''],
           sp_next = Present (Some ''ant-pagination-next ant-pagination-disabled'') True,
           sp_click = Inr (), sp_response = Inr ()\<rparr>]) 0 \<and>
   next_absent_or_disabled
     (paged_driver (one_site blank_view)
        [\<lparr>sp_cards = [Some ''https://www.nsws.gov.in/a''],
           sp_next = Present (Some ''ant-pagination-next'') True,
           sp_click = Inr (), sp_response = Inr ()\<rparr>,
         \<lparr>sp_cards = [Some ''https://www.nsws.gov.in/b''],
           sp_next = Present (Some ''ant-pagination-next ant-pagination-disabled'') True,
           sp_click = Inr (), sp_response = Inr ()\<rparr>]) 1 \<and>
   outcome_of (handle_pagination_and_extraction 2
      (paged_driver (one_site blank_view)
          [\<lparr>sp_cards = [Some ''https://www.nsws.gov.in/a''],
             sp_next = Present (Some ''ant-pagination-next'') True,
             sp_click = Inr (), sp_response = Inr ()\<rparr>,
           \<lparr>sp_cards = [Some ''https://www.nsws.gov.in/b''],
             sp_next = Present (Some ''ant-pagination-next ant-pagination-disabled'') True,
             sp_click = Inr (), sp_response = Inr ()\<rparr>])
      ''All_Approvals.csv'' ALL_HEADERS [] 0 Map.empty) = Some (Inr ()) \<and>
   pages_of (handle_pagination_and_extraction 2
      (paged_driver (one_site blank_view)
          [\<lparr>sp_cards = [Some ''https://www.nsws.gov.in/a''],
             sp_next = Present (Some ''ant-pagination-next'') True,
             sp_click = Inr (), sp_response = Inr ()\<rparr>,
           \<lparr>sp_cards = [Some ''https://www.nsws.gov.in/b''],
             sp_next = Present (Some ''ant-pagination-next ant-pagination-disabled'') True,
             sp_click = Inr (), sp_response = Inr ()\<rparr>])
      ''All_Approvals.csv'' ALL_HEADERS [] 0 Map.empty) = 2 \<and>
   outcome_of (handle_pagination_and_extraction2 2
      (paged_driver (one_site blank_view)
          [\<lparr>sp_cards = [Some ''https://www.nsws.gov.in/a''],
             sp_next = Present (Some ''ant-pagination-next'') True,
             sp_click = Inr (), sp_response = Inr ()\<rparr>,
           \<lparr>sp_cards = [Some ''https://www.nsws.gov.in/b''],
             sp_next = Present (Some ''ant-pagination-next ant-pagination-disabled'') True,
             sp_click = Inr (), sp_response = Inr ()\<rparr>])
      ''All_Approvals.csv'' ALL_HEADERS [] 0 Map.empty) = Some (Inr ()) \<and>
   pages_of (handle_pagination_and_extraction2 2
      (paged_driver (one_site blank_view)
          [\<lparr>sp_cards = [Some ''https://www.nsws.gov.in/a''],
             sp_next = Present (Some ''ant-pagination-next'') True,
             sp_click = Inr (), sp_response = Inr ()\<rparr>,
           \<lparr>sp_cards = [Some ''https://www.nsws.gov.in/b''],
             sp_next = Present (Some ''ant-pagination-next ant-pagination-disabled'') True,
             sp_click = Inr (), sp_response = Inr ()\<rparr>])
      ''All_Approvals.csv'' ALL_HEADERS [] 0 Map.empty) = 2 \<and>
   world_of (handle_pagination_and_extraction 2
      (paged_driver (one_site blank_view)
          [\<lparr>sp_cards = [Some ''https://www.nsws.gov.in/a''],
             sp_next = Present (Some ''ant-pagination-next'') True,
             sp_click = Inr (), sp_response = Inr ()\<rparr>,
           \<lparr>sp_cards = [Some ''https://www.nsws.gov.in/b''],
             sp_next = Present (Some ''ant-pagination-next ant-pagination-disabled'') True,
             sp_click = Inr (), sp_response = Inr ()\<rparr>])
      ''All_Approvals.csv'' ALL_HEADERS [] 0 Map.empty) = 1 \<and>
   world_of (handle_pagination_and_extraction2 2
      (paged_driver (one_site blank_view)
          [\<lparr>sp_cards = [Some ''https://www.nsws.gov.in/a''],
             sp_next = Present (Some ''ant-pagination-next'') True,
             sp_click = Inr (), sp_response = Inr ()\<rparr>,
           \<lparr>sp_cards = [Some ''https://www.nsws.gov.in/b''],
             sp_next = Present (Some ''ant-pagination-next ant-pagination-disabled'') True,
             sp_click = Inr (), sp_response = Inr ()\<rparr>])
      ''All_Approvals.csv'' ALL_HEADERS [] 0 Map.empty) = 1"
proof -
  let ?ps = "[\<lparr>sp_cards = [Some ''https://www.nsws.gov.in/a''],
             sp_next = Present (Some ''ant-pagination-next'') True,
             sp_click = Inr (), sp_response = Inr ()\<rparr>,
           \<lparr>sp_cards = [Some ''https://www.nsws.gov.in/b''],
             sp_next = Present (Some ''ant-pagination-next ant-pagination-disabled'') True,
             sp_click = Inr (), sp_response = Inr ()\<rparr>]"
  let ?d = "paged_driver (one_site blank_view) ?ps"
  have first: "next_present_and_enabled ?d 0" "next_can_be_clicked ?d 0"
    "snd (d_click ?d 0 NEXT_BUTTON) = 0 + 1"
    by (simp_all add: paged_next_present_and_enabled paged_next_can_be_clicked paged_click
        page_at_def disabled_marker_def)
  have final: "next_absent_or_disabled ?d 1"
    by (simp add: paged_next_absent_or_disabled page_at_def disabled_marker_def)
  have a: "(0::nat) < 2" and b: "(2::nat) \<le> 2" and c: "(\<lambda>w::nat. w) 0 = 0"
    by simp_all
  have sleep: "\<forall>w n. (\<lambda>w::nat. w) (d_sleep ?d w n) = (\<lambda>w::nat. w) w"
    by (simp add: paged_driver_def)
  have cards: "\<forall>w. \<not> isl (d_count ?d w (Loc CARDS))"
    by (simp add: paged_driver_def sim_count_def)
  have last: "\<forall>w. (\<lambda>w::nat. w) w = 2 - 1 \<longrightarrow> next_absent_or_disabled ?d w"
    using final by simp
  have earlier: "\<forall>w. (\<lambda>w::nat. w) w < 2 - 1 \<longrightarrow>
      next_present_and_enabled ?d w \<and> next_can_be_clicked ?d w \<and>
      (\<lambda>w::nat. w) (snd (d_click ?d w NEXT_BUTTON)) = (\<lambda>w::nat. w) w + 1"
    using first by simp
  have response: "\<forall>w. 0 < (\<lambda>w::nat. w) w \<and> (\<lambda>w::nat. w) w < 2 \<longrightarrow>
      fst (d_expect_response ?d w) = Inr () \<and>
      (\<lambda>w::nat. w) (snd (d_expect_response ?d w)) = (\<lambda>w::nat. w) w"
  proof (intro allI impI)
    fix w :: nat
    assume "0 < (\<lambda>w::nat. w) w \<and> (\<lambda>w::nat. w) w < 2"
    then have "w = 1" by simp
    then show "fst (d_expect_response ?d w) = Inr () \<and>
      (\<lambda>w::nat. w) (snd (d_expect_response ?d w)) = (\<lambda>w::nat. w) w"
      by (simp add: paged_driver_def page_at_def)
  qed
  have wait: "\<forall>w. (\<lambda>w::nat. w) (snd (d_wait_for_selector ?d w CARDS)) = (\<lambda>w::nat. w) w"
    by (simp add: paged_driver_def)
  have shown: "\<forall>w. (\<lambda>w::nat. w) w < 2 - 1 \<longrightarrow> fst (d_wait_for_selector ?d w CARDS) = Inr ()"
    by (simp add: paged_driver_def page_at_def)
  from pagination_visits_every_page [of 2 2 "\<lambda>w::nat. w" 0 ?d
      "''All_Approvals.csv''" ALL_HEADERS "[]" Map.empty, OF a b c sleep cards last earlier]
    response wait shown
  have "outcome_of (handle_pagination_and_extraction 2 ?d
            ''All_Approvals.csv'' ALL_HEADERS [] 0 Map.empty) = Some (Inr ())"
    and "pages_of (handle_pagination_and_extraction 2 ?d
            ''All_Approvals.csv'' ALL_HEADERS [] 0 Map.empty) = 2"
    and "outcome_of (handle_pagination_and_extraction2 2 ?d
            ''All_Approvals.csv'' ALL_HEADERS [] 0 Map.empty) = Some (Inr ())"
    and "pages_of (handle_pagination_and_extraction2 2 ?d
            ''All_Approvals.csv'' ALL_HEADERS [] 0 Map.empty) = 2"
    and "world_of (handle_pagination_and_extraction 2 ?d
            ''All_Approvals.csv'' ALL_HEADERS [] 0 Map.empty) = 2 - 1"
    and "world_of (handle_pagination_and_extraction2 2 ?d
            ''All_Approvals.csv'' ALL_HEADERS [] 0 Map.empty) = 2 - 1"
    by blast+
  with first(1,2) final show ?thesis by simp
qed

text \<open>
  C9 as stated fails. Each of these sequences has two pages, the first with a "next"
  control that is present and enabled, the second without one. When the first page shows
  no card, the walk of nsws_scraper2.py gives up waiting for a card and ends on page 1.
  When the control of the first page has no anchor or button inside it, or the click on
  it fails, both walks end on page 1. When the click succeeds but no response of status
  200 comes in time, the walk of nsws_scraper.py ends on page 1.
\<close>

theorem pagination_stops_early:
  "present_and_enabled (Present (Some ''ant-pagination-next'') True) \<and>
   present_and_enabled (Present (Some ''ant-pagination-next'') False) \<and>
   absent_or_disabled Absent \<and>
   outcome_of 
     (handle_pagination_and_extraction2 5
        (paged_driver (one_site blank_view)
            [\<lparr>sp_cards = [],
               sp_next = Present (Some ''ant-pagination-next'') True,
               sp_click = Inr (), sp_response = Inr ()\<rparr>,
             \<lparr>sp_cards = [Some ''https://www.nsws.gov.in/b''], sp_next = Absent,
               sp_click = Inr (), sp_response = Inr ()\<rparr>])
        ''All_Approvals.csv'' ALL_HEADERS [] 0 Map.empty) = Some (Inr ()) \<and>
   pages_of 
     (handle_pagination_and_extraction2 5
        (paged_driver (one_site blank_view)
            [\<lparr>sp_cards = [],
               sp_next = Present (Some ''ant-pagination-next'') True,
               sp_click = Inr (), sp_response = Inr ()\<rparr>,
             \<lparr>sp_cards = [Some ''https://www.nsws.gov.in/b''], sp_next = Absent,
               sp_click = Inr (), sp_response = Inr ()\<rparr>])
        ''All_Approvals.csv'' ALL_HEADERS [] 0 Map.empty) = 1 \<and>
   pages_of 
     (handle_pagination_and_extraction 5
        (paged_driver (one_site blank_view)
            [\<lparr>sp_cards = [None],
               sp_next = Present (Some ''ant-pagination-next'') False,
               sp_click = Inr (), sp_response = Inr ()\<rparr>,
             \<lparr>sp_cards = [Some ''https://www.nsws.gov.in/b''], sp_next = Absent,
               sp_click = Inr (), sp_response = Inr ()\<rparr>])
        ''All_Approvals.csv'' ALL_HEADERS [] 0 Map.empty) = 1 \<and>
   pages_of 
     (handle_pagination_and_extraction2 5
        (paged_driver (one_site blank_view)
            [\<lparr>sp_cards = [None],
               sp_next = Present (Some ''ant-pagination-next'') False,
               sp_click = Inr (), sp_response = Inr ()\<rparr>,
             \<lparr>sp_cards = [Some ''https://www.nsws.gov.in/b''], sp_next = Absent,
               sp_click = Inr (), sp_response = Inr ()\<rparr>])
        ''All_Approvals.csv'' ALL_HEADERS [] 0 Map.empty) = 1 \<and>
   pages_of 
     (handle_pagination_and_extraction 5
        (paged_driver (one_site blank_view)
            [\<lparr>sp_cards = [None],
               sp_next = Present (Some ''ant-pagination-next'') True,
               sp_click = Inl TimeoutError, sp_response = Inr ()\<rparr>,
             \<lparr>sp_cards = [Some ''https://www.nsws.gov.in/b''], sp_next = Absent,
               sp_click = Inr (), sp_response = Inr ()\<rparr>])
        ''All_Approvals.csv'' ALL_HEADERS [] 0 Map.empty) = 1 \<and>
   pages_of 
     (handle_pagination_and_extraction2 5
        (paged_driver (one_site blank_view)
            [\<lparr>sp_cards = [None],
               sp_next = Present (Some ''ant-pagination-next'') True,
               sp_click = Inl TimeoutError, sp_response = Inr ()\<rparr>,
             \<lparr>sp_cards = [Some ''https://www.nsws.gov.in/b''], sp_next = Absent,
               sp_click = Inr (), sp_response = Inr ()\<rparr>])
        ''All_Approvals.csv'' ALL_HEADERS [] 0 Map.empty) = 1 \<and>
   outcome_of 
     (handle_pagination_and_extraction 5
        (paged_driver (one_site blank_view)
            [\<lparr>sp_cards = [None],
               sp_next = Present (Some ''ant-pagination-next'') True,
               sp_click = Inr (), sp_response = Inr ()\<rparr>,
             \<lparr>sp_cards = [Some ''https://www.nsws.gov.in/b''], sp_next = Absent,
               sp_click = Inr (), sp_response = Inl TimeoutError\<rparr>])
        ''All_Approvals.csv'' ALL_HEADERS [] 0 Map.empty) = Some (Inr ()) \<and>
   pages_of 
     (handle_pagination_and_extraction 5
        (paged_driver (one_site blank_view)
            [\<lparr>sp_cards = [None],
               sp_next = Present (Some ''ant-pagination-next'') True,
               sp_click = Inr (), sp_response = Inr ()\<rparr>,
             \<lparr>sp_cards = [Some ''https://www.nsws.gov.in/b''], sp_next = Absent,
               sp_click = Inr (), sp_response = Inl TimeoutError\<rparr>])
        ''All_Approvals.csv'' ALL_HEADERS [] 0 Map.empty) = 1"
  by (simp add: disabled_marker_def handle_pagination_and_extraction_def
      handle_pagination_and_extraction2_def paged_driver_def page_at_def sim_count_def
      sim_get_attribute_def sim_click_def process_card_def process_card2_def card_step_def
      next_page_def next_page2_def CARDS_def NEXT_LI_def outcome_of_def pages_of_def
      numeral_nat)

section \<open>Properties: recovery of the filter iterator\<close>

lemmas filter_eval =
  click_filter_and_process_def click_filter_and_process2_def option_body_def
  positional_block_def canonical_name_def strip_count_def isdigit_def
  lower_def lower_char_def capitals_def small_letters_def catalogue_def filter_driver_def group_options_def
  FILTER_HEADERS_def FILTER_TYPE_def CHECKBOXES_def ANCESTOR_def

text \<open>
  C4. The claim: after an option has failed, the view is reloaded and the remaining
  options are taken from the container of the same group, derived again. In
  nsws_scraper.py the handler derives the container by position with the test
  \<^verbatim>\<open>"Ministry" in section_name\<close>, and the section of the first phase is named
  "Ministries", which does not contain "Ministry": the handler takes the second
  container, that of the Departments. On the catalogue, where the toggle of the first
  ministry cannot be clicked, the phase reloads once, returns, and the row it writes for
  the second option carries the label of the second department as its ministry name.
  nsws_scraper2.py keeps the container found by name and writes the second ministry.
\<close>

theorem recovery_takes_the_departments:
  "positional_block ''Ministry'' ''Ministries'' = Nth (Loc FILTER_TYPE) 1 \<and>
   fst (click_filter_and_process 1 catalogue ''Ministries'' ''Ministries.csv''
          MINISTRY_HEADERS ''Ministry Name'' 0 Map.empty) = Some (Inr ()) \<and>
   fst (snd (click_filter_and_process 1 catalogue ''Ministries'' ''Ministries.csv''
          MINISTRY_HEADERS ''Ministry Name'' 0 Map.empty)) = 1 \<and>
   content (snd (snd (click_filter_and_process 1 catalogue ''Ministries'' ''Ministries.csv''
          MINISTRY_HEADERS ''Ministry Name'' 0 Map.empty))) ''Ministries.csv'' =
    [Header MINISTRY_HEADERS,
     Row [(''Approval Link'', ''https://www.nsws.gov.in/a''), (''Approval Name'', ''N/A''),
          (''Ministry Name'', ''Department of Health Research''),
          (''About this approval'', ''N/A''), (''Who can apply'', ''N/A''),
          (''Documents required'', ''N/A''), (''Approval applicability/trigger'', ''N/A''),
          (''Application Fee'', ''N/A''), (''Validity'', ''N/A''),
          (''Average Time taken to get this'', ''N/A''),
          (''Can be applied through NSWS'', ''No (Information Only)'')]] \<and>
   content (snd (snd (click_filter_and_process2 1 catalogue ''Ministries'' ''Ministries.csv''
          MINISTRY_HEADERS ''Ministry Name'' 0 Map.empty))) ''Ministries.csv'' =
    [Header MINISTRY_HEADERS,
     Row [(''Approval Link'', ''https://www.nsws.gov.in/a''), (''Approval Name'', ''N/A''),
          (''Ministry Name'', ''Ministry of Health''),
          (''About this approval'', ''N/A''), (''Who can apply'', ''N/A''),
          (''Documents required'', ''N/A''), (''Approval applicability/trigger'', ''N/A''),
          (''Application Fee'', ''N/A''), (''Validity'', ''N/A''),
          (''Average Time taken to get this'', ''N/A''),
          (''Can be applied through NSWS'', ''No (Information Only)'')]]"
  by (simp add: filter_eval walk_eval)

end
